theory Spec2Isabelle
  imports Complex_Main "HOL-Library.List_Lexorder" "HOL-Library.AList"
begin

section \<open>JavaScript values used by the deduction actions\<close>

subsection \<open>Strings\<close>

text \<open>
  A JavaScript string is a sequence of UTF-16 code units; it is modelled as the list of
  these code units. Comparison with \<open><\<close> is the lexicographic order on code units,
  which is the order of \<^theory_text>\<open>List_Lexorder\<close>. \<open>str\<close> embeds an ASCII literal;
  Arabic literals of the source are written as their code units.
\<close>

type_synonym jsstring = "nat list"

definition str :: "string \<Rightarrow> jsstring" where
  "str s = map of_char s"

text \<open>The white space of \<open>String.prototype.trim\<close>, of \<open>\s\<close> in a regular expression
  and of the prefix skipped by \<open>parseFloat\<close> (WhiteSpace and LineTerminator).\<close>

definition is_white_space :: "nat \<Rightarrow> bool" where
  "is_white_space c \<longleftrightarrow>
     c \<in> {9, 10, 11, 12, 13, 32, 160, 5760, 8232, 8233, 8239, 8287, 12288, 65279}
     \<or> (8192 \<le> c \<and> c \<le> 8202)"

definition js_trim :: "jsstring \<Rightarrow> jsstring" where
  "js_trim s = rev (dropWhile is_white_space (rev (dropWhile is_white_space s)))"

text \<open>\<open>s.split(sep)\<close> for a separator of one code unit: every occurrence splits, and the
  empty string splits into one empty piece.\<close>

fun js_split :: "nat \<Rightarrow> jsstring \<Rightarrow> jsstring list" where
  "js_split sep [] = [[]]"
| "js_split sep (c # cs) =
     (if c = sep then [] # js_split sep cs
      else (case js_split sep cs of
              [] \<Rightarrow> [[c]]
            | w # ws \<Rightarrow> (c # w) # ws))"

text \<open>\<open>s.replace(/\s|:/g, '-')\<close>: every white space and every colon becomes a hyphen.\<close>

definition replace_space_colon :: "jsstring \<Rightarrow> jsstring" where
  "replace_space_colon s = map (\<lambda>c. if is_white_space c \<or> c = 58 then 45 else c) s"

definition js_startsWith :: "jsstring \<Rightarrow> jsstring \<Rightarrow> bool" where
  "js_startsWith s p \<longleftrightarrow> take (length p) s = p"

subsection \<open>Numbers\<close>

text \<open>
  A JavaScript number is modelled as an exact rational, the two infinities, or NaN.
  Rounding to the nearest double, overflow and the sign of zero are not modelled.
\<close>

datatype jsnum = Fin rat | PInf | NInf | NaN

fun js_neg :: "jsnum \<Rightarrow> jsnum" where
  "js_neg (Fin r) = Fin (- r)"
| "js_neg PInf = NInf"
| "js_neg NInf = PInf"
| "js_neg NaN = NaN"

fun js_add :: "jsnum \<Rightarrow> jsnum \<Rightarrow> jsnum" where
  "js_add NaN _ = NaN"
| "js_add _ NaN = NaN"
| "js_add (Fin a) (Fin b) = Fin (a + b)"
| "js_add PInf NInf = NaN"
| "js_add NInf PInf = NaN"
| "js_add PInf _ = PInf"
| "js_add _ PInf = PInf"
| "js_add NInf _ = NInf"
| "js_add _ NInf = NInf"

definition inf_of_sign :: "rat \<Rightarrow> jsnum" where
  "inf_of_sign r = (if r = 0 then NaN else if 0 < r then PInf else NInf)"

fun js_mul :: "jsnum \<Rightarrow> jsnum \<Rightarrow> jsnum" where
  "js_mul NaN _ = NaN"
| "js_mul _ NaN = NaN"
| "js_mul (Fin a) (Fin b) = Fin (a * b)"
| "js_mul PInf (Fin b) = inf_of_sign b"
| "js_mul (Fin a) PInf = inf_of_sign a"
| "js_mul NInf (Fin b) = inf_of_sign (- b)"
| "js_mul (Fin a) NInf = inf_of_sign (- a)"
| "js_mul PInf PInf = PInf"
| "js_mul NInf NInf = PInf"
| "js_mul PInf NInf = NInf"
| "js_mul NInf PInf = NInf"

text \<open>A number is falsy when it is zero or NaN.\<close>

definition truthy_num :: "jsnum \<Rightarrow> bool" where
  "truthy_num n \<longleftrightarrow> n \<noteq> Fin 0 \<and> n \<noteq> NaN"

subsection \<open>\<open>parseFloat\<close> on a string\<close>

definition is_digit :: "nat \<Rightarrow> bool" where
  "is_digit c \<longleftrightarrow> 48 \<le> c \<and> c \<le> 57"

definition digits_value :: "jsstring \<Rightarrow> nat" where
  "digits_value ds = foldl (\<lambda>a c. 10 * a + (c - 48)) 0 ds"

definition pow10 :: "int \<Rightarrow> rat" where
  "pow10 k = (if 0 \<le> k then 10 ^ nat k else 1 / 10 ^ nat (- k))"

text \<open>The exponent part \<open>e\<close>, \<open>e+\<close> or \<open>e-\<close> followed by digits; without a digit it is
  not part of the number.\<close>

definition exponent_part :: "jsstring \<Rightarrow> int" where
  "exponent_part s =
     (case s of
        [] \<Rightarrow> 0
      | c # t \<Rightarrow>
          if c = 101 \<or> c = 69 then
            (case t of
               [] \<Rightarrow> 0
             | d # u \<Rightarrow>
                 if d = 43 then
                   (if takeWhile is_digit u = [] then 0
                    else int (digits_value (takeWhile is_digit u)))
                 else if d = 45 then
                   (if takeWhile is_digit u = [] then 0
                    else - int (digits_value (takeWhile is_digit u)))
                 else
                   (if takeWhile is_digit t = [] then 0
                    else int (digits_value (takeWhile is_digit t))))
          else 0)"

text \<open>The longest prefix that is an unsigned decimal literal: \<open>Infinity\<close>, or digits with
  an optional fraction and exponent, or a fraction that starts with the point.\<close>

definition parse_unsigned :: "jsstring \<Rightarrow> jsnum" where
  "parse_unsigned s =
     (if js_startsWith s (str ''Infinity'') then PInf
      else
        let ip = takeWhile is_digit s;
            r1 = dropWhile is_digit s;
            has_point = (case r1 of [] \<Rightarrow> False | c # _ \<Rightarrow> c = 46);
            fp = (if has_point then takeWhile is_digit (tl r1) else []);
            r2 = (if has_point then dropWhile is_digit (tl r1) else r1)
        in if ip = [] \<and> fp = [] then NaN
           else Fin (of_nat (digits_value (ip @ fp))
                     * pow10 (exponent_part r2 - int (length fp))))"

definition parseFloat_str :: "jsstring \<Rightarrow> jsnum" where
  "parseFloat_str s =
     (case dropWhile is_white_space s of
        [] \<Rightarrow> NaN
      | c # u \<Rightarrow>
          if c = 45 then js_neg (parse_unsigned u)
          else if c = 43 then parse_unsigned u
          else parse_unsigned (c # u))"

subsection \<open>Cells: values of type \<open>any\<close>\<close>

text \<open>
  A row is an array of cells. The store returns strings and leaves out trailing empty
  cells, and the flatten step writes strings and numbers, so a cell is a string, a number,
  or \<open>undefined\<close> (read beyond the end of the row).
\<close>

datatype jsval = VUndefined | VString jsstring | VNumber jsnum

type_synonym row = "jsval list"

definition cell :: "row \<Rightarrow> nat \<Rightarrow> jsval" where
  "cell r i = (if i < length r then r ! i else VUndefined)"

fun truthy :: "jsval \<Rightarrow> bool" where
  "truthy VUndefined = False"
| "truthy (VString s) = (s \<noteq> [])"
| "truthy (VNumber n) = truthy_num n"

text \<open>\<open>a || b\<close>\<close>

definition js_or :: "jsval \<Rightarrow> jsval \<Rightarrow> jsval" where
  "js_or a b = (if truthy a then a else b)"

text \<open>
  The environment of a call: the conversion of a number to a string (the digits that
  JavaScript prints are not modelled, so the conversion is a parameter), the value of
  the k-th call of \<open>randomUUID\<close>, and \<open>String.prototype.toLowerCase\<close> (the case mapping
  of Unicode is not modelled, so the method is a parameter: what is proved of a call holds
  for every such function, and so for the one of JavaScript).
\<close>

record js_env =
  number_to_string :: "jsnum \<Rightarrow> jsstring"
  randomUUID :: "nat \<Rightarrow> jsstring"
  toLowerCase :: "jsstring \<Rightarrow> jsstring"

text \<open>The string that a template literal or a property access makes of a value.\<close>

fun to_string :: "js_env \<Rightarrow> jsval \<Rightarrow> jsstring" where
  "to_string env VUndefined = str ''undefined''"
| "to_string env (VString s) = s"
| "to_string env (VNumber n) = number_to_string env n"

text \<open>\<open>parseFloat(x)\<close> converts \<open>x\<close> to a string first; for a number this gives the number
  back, since JavaScript prints a number so that it reads back as itself.\<close>

fun parseFloat :: "jsval \<Rightarrow> jsnum" where
  "parseFloat VUndefined = parseFloat_str (str ''undefined'')"
| "parseFloat (VString s) = parseFloat_str s"
| "parseFloat (VNumber n) = n"

subsection \<open>Plain objects used as dictionaries\<close>

text \<open>
  \<open>groupedByTimestamp\<close> and \<open>contractorsMap\<close> are object literals \<open>{}\<close> indexed by
  strings. An object is modelled by the list of its own properties in the order of their
  creation. Reading a property that the object does not own continues in
  \<open>Object.prototype\<close>, whose property names are listed here; what is found there is a
  function or an object, so it is truthy and has neither \<open>push\<close> nor \<open>deductions\<close>.
\<close>

type_synonym 'v obj = "(jsstring \<times> 'v) list"

definition object_prototype_keys :: "jsstring list" where
  "object_prototype_keys =
     [str ''constructor'', str ''__defineGetter__'', str ''__defineSetter__'',
      str ''hasOwnProperty'', str ''__lookupGetter__'', str ''__lookupSetter__'',
      str ''isPrototypeOf'', str ''propertyIsEnumerable'', str ''toString'',
      str ''valueOf'', str ''__proto__'', str ''toLocaleString'']"

datatype 'v lookup = Own 'v | Inherited | Absent

definition obj_get :: "'v obj \<Rightarrow> jsstring \<Rightarrow> 'v lookup" where
  "obj_get ob k =
     (case map_of ob k of
        Some v \<Rightarrow> Own v
      | None \<Rightarrow> if k \<in> set object_prototype_keys then Inherited else Absent)"

text \<open>
  \<open>Object.entries\<close> and \<open>Object.values\<close> list the own properties whose name is an array
  index (a canonical decimal numeral below \<open>2^32 - 1\<close>) first, in ascending numeric
  order, and then the other properties in the order of their creation.
\<close>

definition is_array_index :: "jsstring \<Rightarrow> bool" where
  "is_array_index k \<longleftrightarrow>
     k \<noteq> [] \<and> list_all is_digit k \<and> (k = [48] \<or> hd k \<noteq> 48)
     \<and> digits_value k < 4294967295"

definition own_entries :: "'v obj \<Rightarrow> (jsstring \<times> 'v) list" where
  "own_entries ob =
     sort_key (\<lambda>p. digits_value (fst p)) (filter (\<lambda>p. is_array_index (fst p)) ob)
     @ filter (\<lambda>p. \<not> is_array_index (fst p)) ob"

section \<open>Data model\<close>

text \<open>
  Modelled from the spec: the declarations of the types \<open>Deduction\<close>, \<open>Contractor\<close> and
  \<open>Company\<close>, which the actions import from the form store module; that module is not
  among the sources. A contractor has an identifier, a name, notes and the ordered list of
  its deductions; a deduction has an identifier, a contract name, a work-item name, a work
  description, an optional meter-equivalent value with its unit, a quantity, a unit price
  and an optional charged-to person name. The fields are those that the actions and the
  form read and write. The numeric fields hold a number or the empty string (the form
  stores \<open>parseFloat(input) || ''\<close>); the text fields hold whatever cell or form value was
  put there.
\<close>

datatype numfield = NumF jsnum | EmptyF

record deduction =
  deduction_id :: jsstring
  contractName :: jsval
  itemName :: jsval
  workDescription :: jsval
  meterEquivalentValue :: numfield
  meterEquivalentUnit :: jsstring
  quantity :: numfield
  unitPrice :: numfield
  personName :: jsval

record contractor =
  contractor_id :: jsstring
  contractorName :: jsval
  "notes" :: jsval
  deductions :: "deduction list"

record submission =
  reportId :: jsstring
  timestamp :: jsstring
  userEmail :: jsval
  status :: jsval
  company :: jsval
  contractors :: "contractor list"
  grandTotal :: jsnum

text \<open>
  What the code throws. The texts of the messages are kept symbolic: one constructor for
  each message that the source builds, \<open>StoreText\<close> for the message of an error object that
  the store client threw, \<open>RuntimeText\<close> for the message of a \<open>TypeError\<close> of the runtime.
\<close>

datatype message =
    FailedToInitializeSheet jsstring
  | FailedToFetchContractorList
  | FailedToFetchContractList jsstring
  | FailedToFetchWorkItemList jsstring
  | SendFailed
  | PermissionDenied
  | FileNotFound
  | HistoryFetchFailed
  | AllReportsFetchFailed
  | NoDataFound jsstring
  | ReportNotFound jsstring
  | StatusUpdateFailed
  | StoreText jsstring
  | RuntimeText

text \<open>
  A thrown value: a \<open>TypeError\<close> of the runtime, an \<open>Error\<close> made by \<open>new Error(message)\<close>,
  an error object of the store client with its optional numeric \<open>code\<close> and its text, or a
  value that is not an instance of \<open>Error\<close>.
\<close>

datatype error = TypeError | Error message | StoreFailure "nat option" jsstring | NotAnError

text \<open>\<open>Number(x)\<close> for a numeric field: the empty string converts to 0.\<close>

fun Number :: "numfield \<Rightarrow> jsnum" where
  "Number (NumF n) = n"
| "Number EmptyF = Fin 0"

text \<open>The status literal of a report that awaits review (\<open>U+0642 U+064A U+062F\<close>, a space,
  \<open>U+0627 U+0644 U+0645 U+0631 U+0627 U+062C U+0639 U+0629\<close>).\<close>

definition pending_review :: jsstring where
  "pending_review = [1602, 1610, 1583, 32, 1575, 1604, 1605, 1585, 1575, 1580, 1593, 1577]"

section \<open>Reconstruction: \<open>parseSubmissionsFromRows\<close>\<close>

text \<open>The key of a row, \<open>`${row[0]} ${row[1]}`\<close>.\<close>

definition timestampKey :: "js_env \<Rightarrow> row \<Rightarrow> jsstring" where
  "timestampKey env r = to_string env (cell r 0) @ [32] @ to_string env (cell r 1)"

text \<open>
  The \<open>reduce\<close> that groups the rows: a key that is not yet a property gets an empty array,
  then the row is pushed. Were the key found in the prototype, no array would be created
  and the call of \<open>push\<close> on the inherited value would throw.
\<close>

fun groupedByTimestamp :: "js_env \<Rightarrow> row list obj \<Rightarrow> row list \<Rightarrow> error + row list obj" where
  "groupedByTimestamp env acc [] = Inr acc"
| "groupedByTimestamp env acc (r # rs) =
     (case obj_get acc (timestampKey env r) of
        Absent \<Rightarrow> groupedByTimestamp env (AList.update (timestampKey env r) [r] acc) rs
      | Own grp \<Rightarrow> groupedByTimestamp env (AList.update (timestampKey env r) (grp @ [r]) acc) rs
      | Inherited \<Rightarrow> Inl TypeError)"

text \<open>\<open>(row[8] || '').split(' ')\<close>: a number that is truthy has no method \<open>split\<close>.\<close>

definition split_meter :: "jsval \<Rightarrow> error + jsstring list" where
  "split_meter v =
     (case js_or v (VString []) of
        VString s \<Rightarrow> Inr (js_split 32 s)
      | _ \<Rightarrow> Inl TypeError)"

text \<open>The deduction built from one row; \<open>k\<close> counts the calls of \<open>randomUUID\<close> so far. The
  destructuring \<open>[meterValue, meterUnit]\<close> takes the first two pieces of the split.\<close>

definition make_deduction :: "js_env \<Rightarrow> nat \<Rightarrow> row \<Rightarrow> error + deduction" where
  "make_deduction env k r =
     (case split_meter (cell r 8) of
        Inl e \<Rightarrow> Inl e
      | Inr parts \<Rightarrow>
          let meterValue = (case parts of [] \<Rightarrow> [] | v # _ \<Rightarrow> v);
              meterUnit = (case parts of _ # u # _ \<Rightarrow> u | _ \<Rightarrow> [])
          in Inr \<lparr> deduction_id = str ''deduction-'' @ randomUUID env k,
                   contractName = cell r 5,
                   itemName = cell r 6,
                   workDescription = cell r 7,
                   meterEquivalentValue =
                     (if meterValue \<noteq> [] then NumF (parseFloat_str meterValue) else EmptyF),
                   meterEquivalentUnit = meterUnit,
                   quantity = NumF (parseFloat (cell r 9)),
                   unitPrice = NumF (parseFloat (cell r 10)),
                   personName = cell r 12 \<rparr>)"

text \<open>
  One round of the \<open>forEach\<close> over the rows of a group: the contractor is created at the
  first row with its name, with the notes of that row; then the deduction is pushed.
\<close>

definition new_contractor :: "js_env \<Rightarrow> row \<Rightarrow> contractor" where
  "new_contractor env r =
     \<lparr> contractor_id = str ''contractor-'' @ to_string env (cell r 4),
       contractorName = cell r 4,
       notes = js_or (cell r 13) (VString []),
       deductions = [] \<rparr>"

definition add_row :: "js_env \<Rightarrow> nat \<times> contractor obj \<Rightarrow> row \<Rightarrow> error + nat \<times> contractor obj" where
  "add_row env st r =
     (let k = fst st;
          name = to_string env (cell r 4);
          cmap = (case obj_get (snd st) name of
                    Absent \<Rightarrow> AList.update name (new_contractor env r) (snd st)
                  | _ \<Rightarrow> snd st)
      in case make_deduction env k r of
           Inl e \<Rightarrow> Inl e
         | Inr d \<Rightarrow>
             (case obj_get cmap name of
                Own c \<Rightarrow> Inr (Suc k, AList.update name (c\<lparr>deductions := deductions c @ [d]\<rparr>) cmap)
              | _ \<Rightarrow> Inl TypeError))"

fun contractorsMap :: "js_env \<Rightarrow> nat \<times> contractor obj \<Rightarrow> row list \<Rightarrow> error + nat \<times> contractor obj" where
  "contractorsMap env st [] = Inr st"
| "contractorsMap env st (r # rs) =
     (case add_row env st r of
        Inl e \<Rightarrow> Inl e
      | Inr st' \<Rightarrow> contractorsMap env st' rs)"

text \<open>The two nested \<open>reduce\<close> calls of the grand total.\<close>

definition deduction_total :: "deduction \<Rightarrow> jsnum" where
  "deduction_total d = js_mul (Number (quantity d)) (Number (unitPrice d))"

definition contractor_total :: "contractor \<Rightarrow> jsnum" where
  "contractor_total c = foldl (\<lambda>subTotal d. js_add subTotal (deduction_total d)) (Fin 0) (deductions c)"

definition grand_total :: "contractor list \<Rightarrow> jsnum" where
  "grand_total cs = foldl (\<lambda>total c. js_add total (contractor_total c)) (Fin 0) cs"

text \<open>The report of one group: the header comes from the first row of the group.\<close>

definition make_submission :: "js_env \<Rightarrow> nat \<Rightarrow> jsstring \<times> row list \<Rightarrow> error + nat \<times> submission" where
  "make_submission env k entry =
     (let firstRow = (case snd entry of [] \<Rightarrow> [] | r # _ \<Rightarrow> r)
      in case contractorsMap env (k, []) (snd entry) of
           Inl e \<Rightarrow> Inl e
         | Inr st \<Rightarrow>
             Inr (fst st,
                  \<lparr> reportId = str ''report-'' @ replace_space_colon (fst entry),
                    timestamp = fst entry,
                    userEmail = cell firstRow 2,
                    status = js_or (cell firstRow 14) (VString pending_review),
                    company = cell firstRow 3,
                    contractors = map snd (own_entries (snd st)),
                    grandTotal = grand_total (map snd (own_entries (snd st))) \<rparr>))"

fun make_submissions :: "js_env \<Rightarrow> nat \<Rightarrow> (jsstring \<times> row list) list \<Rightarrow> error + submission list" where
  "make_submissions env k [] = Inr []"
| "make_submissions env k (entry # entries) =
     (case make_submission env k entry of
        Inl e \<Rightarrow> Inl e
      | Inr (k', s) \<Rightarrow>
          (case make_submissions env k' entries of
             Inl e \<Rightarrow> Inl e
           | Inr ss \<Rightarrow> Inr (s # ss)))"

text \<open>
  The comparator of the final \<open>sort\<close>, and the sort itself. \<open>Array.prototype.sort\<close> is
  stable and the comparator is consistent, so the result is that of a stable insertion
  sort: \<open>a\<close> stays before \<open>b\<close> unless the comparator is positive.
\<close>

definition compare_timestamps :: "submission \<Rightarrow> submission \<Rightarrow> int" where
  "compare_timestamps a b =
     (if timestamp a < timestamp b then 1
      else if timestamp a > timestamp b then - 1
      else 0)"

fun insert_sorted :: "submission \<Rightarrow> submission list \<Rightarrow> submission list" where
  "insert_sorted a [] = [a]"
| "insert_sorted a (b # bs) =
     (if compare_timestamps a b \<le> 0 then a # b # bs else b # insert_sorted a bs)"

definition sort_submissions :: "submission list \<Rightarrow> submission list" where
  "sort_submissions ss = foldr insert_sorted ss []"

definition parseSubmissionsFromRows :: "js_env \<Rightarrow> row list \<Rightarrow> error + submission list" where
  "parseSubmissionsFromRows env rows =
     (case groupedByTimestamp env [] rows of
        Inl e \<Rightarrow> Inl e
      | Inr groups \<Rightarrow>
          (case make_submissions env 0 (own_entries groups) of
             Inl e \<Rightarrow> Inl e
           | Inr ss \<Rightarrow> Inr (sort_submissions ss)))"

subsection \<open>Notions used to state the properties of the reconstruction\<close>

text \<open>The rows of a list that carry a given key, and those that carry a given contractor
  name (the name is the property name under which \<open>contractorsMap\<close> files the row).\<close>

definition rows_with_key :: "js_env \<Rightarrow> jsstring \<Rightarrow> row list \<Rightarrow> row list" where
  "rows_with_key env k rows = filter (\<lambda>r. timestampKey env r = k) rows"

definition contractor_key :: "js_env \<Rightarrow> row \<Rightarrow> jsstring" where
  "contractor_key env r = to_string env (cell r 4)"

definition rows_named :: "js_env \<Rightarrow> jsstring \<Rightarrow> row list \<Rightarrow> row list" where
  "rows_named env name rows = filter (\<lambda>r. contractor_key env r = name) rows"

text \<open>\<open>from_row env d r\<close>: the deduction \<open>d\<close> is the one that \<open>make_deduction\<close> builds from the
  row \<open>r\<close>, whatever its random identifier.\<close>

definition from_row :: "js_env \<Rightarrow> deduction \<Rightarrow> row \<Rightarrow> bool" where
  "from_row env d r \<longleftrightarrow>
     (case make_deduction env 0 r of
        Inl _ \<Rightarrow> False
      | Inr d' \<Rightarrow> d\<lparr>deduction_id := []\<rparr> = d'\<lparr>deduction_id := []\<rparr>)"

text \<open>The invariant of the loop over the rows of a group, after the rows \<open>pre\<close>: every
  contractor of the dictionary is the one created at the first row with its name, and its
  deductions are those built from the rows with its name, in their order.\<close>

definition cmap_inv :: "js_env \<Rightarrow> contractor obj \<Rightarrow> row list \<Rightarrow> bool" where
  "cmap_inv env cm pre \<longleftrightarrow>
     distinct (map fst cm)
     \<and> (\<forall>name c. map_of cm name = Some c \<longrightarrow>
           rows_named env name pre \<noteq> []
           \<and> c\<lparr>deductions := []\<rparr> = new_contractor env (hd (rows_named env name pre))
           \<and> list_all2 (from_row env) (deductions c) (rows_named env name pre))
     \<and> (\<forall>r\<in>set pre. map_of cm (contractor_key env r) \<noteq> None)"

subsection \<open>Example inputs\<close>

text \<open>The environment of the examples. Its lower-casing maps the letters A to Z and leaves
  every other code unit as it is: on a string of ASCII characters this is the result of
  \<open>toLowerCase\<close>, and the examples apply it to such strings only.\<close>

definition ascii_lower :: "jsstring \<Rightarrow> jsstring" where
  "ascii_lower s = map (\<lambda>c. if 65 \<le> c \<and> c \<le> 90 then c + 32 else c) s"

definition example_env :: js_env where
  "example_env =
     \<lparr> number_to_string = (\<lambda>n. []), randomUUID = (\<lambda>k. []), toLowerCase = ascii_lower \<rparr>"

definition may_row :: row where
  "may_row = [VString (str ''2024-05-01''), VString (str ''09:00''), VString (str ''user@test.com''),
     VString (str ''DMC''), VString (str ''A'')]"

definition june_row :: row where
  "june_row = [VString (str ''2024-06-01''), VString (str ''10:00''), VString (str ''user@test.com''),
     VString (str ''DMC''), VString (str ''B'')]"


definition first_notes_row :: row where
  "first_notes_row = [VString (str ''2024-06-01''), VString (str ''10:00''), VString (str ''user@test.com''),
     VString (str ''DMC''), VString (str ''A''), VString (str ''contract''), VString (str ''item''),
     VString (str ''work''), VString [], VString (str ''2''), VString (str ''3''), VString (str ''6''),
     VString [], VString (str ''first'')]"

definition second_notes_row :: row where
  "second_notes_row = [VString (str ''2024-06-01''), VString (str ''10:00''), VString (str ''user@test.com''),
     VString (str ''DMC''), VString (str ''A''), VString (str ''contract''), VString (str ''item''),
     VString (str ''work''), VString [], VString (str ''1''), VString (str ''5''), VString (str ''5''),
     VString [], VString (str ''second'')]"

text \<open>Rows of one contractor whose name is a property that every plain object inherits,
  in the report of \<open>first_notes_row\<close> and in a report of another day; a row whose
  contractor cell is the string \<open>undefined\<close>, and a row of the same report that ends after
  the company cell, so that its contractor cell is absent.\<close>

definition inherited_name_first_row :: row where
  "inherited_name_first_row = [VString (str ''2024-06-01''), VString (str ''10:00''), VString (str ''user@test.com''),
     VString (str ''DMC''), VString (str ''constructor''), VString (str ''contract''), VString (str ''item''),
     VString (str ''work''), VString [], VString (str ''2''), VString (str ''3''), VString (str ''6''),
     VString [], VString (str ''first'')]"

definition inherited_name_second_row :: row where
  "inherited_name_second_row = [VString (str ''2024-06-01''), VString (str ''10:00''), VString (str ''user@test.com''),
     VString (str ''DMC''), VString (str ''constructor''), VString (str ''contract''), VString (str ''item''),
     VString (str ''work''), VString [], VString (str ''1''), VString (str ''5''), VString (str ''5''),
     VString [], VString (str ''second'')]"

definition inherited_name_other_day_row :: row where
  "inherited_name_other_day_row = [VString (str ''2024-07-01''), VString (str ''08:30''), VString (str ''user@test.com''),
     VString (str ''DMC''), VString (str ''toString''), VString (str ''contract''), VString (str ''item''),
     VString (str ''work''), VString [], VString (str ''1''), VString (str ''5''), VString (str ''5'')]"

definition undefined_name_row :: row where
  "undefined_name_row = [VString (str ''2024-06-01''), VString (str ''10:00''), VString (str ''user@test.com''),
     VString (str ''DMC''), VString (str ''undefined''), VString (str ''contract''), VString (str ''item''),
     VString (str ''work''), VString [], VString (str ''2''), VString (str ''3''), VString (str ''6''),
     VString [], VString (str ''first'')]"

definition absent_name_row :: row where
  "absent_name_row = [VString (str ''2024-06-01''), VString (str ''10:00''), VString (str ''user@test.com''),
     VString (str ''DMC'')]"

text \<open>The rows of the group from which a report was built: the group that
  \<open>groupedByTimestamp\<close> holds under the timestamp of the report.\<close>

definition report_rows :: "js_env \<Rightarrow> row list \<Rightarrow> submission \<Rightarrow> row list" where
  "report_rows env rows s =
     (case groupedByTimestamp env [] rows of
        Inl _ \<Rightarrow> []
      | Inr groups \<Rightarrow> (case map_of groups (timestamp s) of None \<Rightarrow> [] | Some grp \<Rightarrow> grp))"

definition other_contractor_row :: row where
  "other_contractor_row = [VString (str ''2024-06-01''), VString (str ''10:00''), VString (str ''user@test.com''),
     VString (str ''DMC''), VString (str ''B''), VString (str ''contract''), VString (str ''item''),
     VString (str ''work''), VString [], VString (str ''4''), VString (str ''1''), VString (str ''4'')]"

definition split_date_row :: row where
  "split_date_row = [VString (str ''2024-06-01 10''), VString (str ''00''), VString (str ''user@test.com''),
     VString (str ''DMC''), VString (str ''A'')]"

definition split_time_row :: row where
  "split_time_row = [VString (str ''2024-06-01''), VString (str ''10 00''), VString (str ''user@test.com''),
     VString (str ''DMC''), VString (str ''A'')]"

section \<open>The row store\<close>

text \<open>
  The spreadsheet service is an external collaborator. A store is given by its answers:
  each answer may depend on the requests made so far. \<open>spreadsheets.get\<close> answers with the
  titles of the sheets, \<open>values.get\<close> with the rows of a range (\<open>undefined\<close> for an empty
  range), and a write with nothing; each of them may throw instead. An operation returns,
  with its result, the requests it has made, in their order.
\<close>

datatype request =
    SpreadsheetsGet
  | AddSheet jsstring
  | ValuesUpdate jsstring "row list"
  | ValuesGet jsstring
  | ValuesAppend jsstring "row list"
  | ValuesBatchUpdate "(jsstring \<times> row list) list"

record store =
  spreadsheets_get :: "request list \<Rightarrow> error + jsstring list"
  values_get :: "request list \<Rightarrow> jsstring \<Rightarrow> error + row list option"
  write_request :: "request list \<Rightarrow> request \<Rightarrow> error option"

text \<open>Whether the store throws at the request \<open>rq\<close> made after the requests \<open>hist\<close>, and
  for a sequence of requests, which of them failed.\<close>

fun failed_call :: "store \<Rightarrow> request list \<Rightarrow> request \<Rightarrow> bool" where
  "failed_call st hist SpreadsheetsGet = isl (spreadsheets_get st hist)"
| "failed_call st hist (ValuesGet rng) = isl (values_get st hist rng)"
| "failed_call st hist rq = (write_request st hist rq \<noteq> None)"

fun outcomes_from :: "store \<Rightarrow> request list \<Rightarrow> request list \<Rightarrow> bool list" where
  "outcomes_from st hist [] = []"
| "outcomes_from st hist (rq # rqs) = failed_call st hist rq # outcomes_from st (hist @ [rq]) rqs"

definition outcomes :: "store \<Rightarrow> request list \<Rightarrow> bool list" where
  "outcomes st tr = outcomes_from st [] tr"

definition USERS_SHEET_NAME :: jsstring where
  "USERS_SHEET_NAME = str ''Users''"

definition CONTRACTORS_SHEET_NAME :: jsstring where
  "CONTRACTORS_SHEET_NAME = str ''Contractors''"

definition SUBMISSION_HEADERS :: "jsstring list" where
  "SUBMISSION_HEADERS =
     [[1575, 1604, 1578, 1575, 1585, 1610, 1582],
      [1575, 1604, 1608, 1602, 1578],
      [1575, 1604, 1605, 1607, 1606, 1583, 1587, 32, 47, 1575, 1604, 1605, 1588, 1585, 1601],
      [1575, 1604, 1588, 1585, 1603, 1577],
      [1575, 1587, 1605, 32, 1575, 1604, 1605, 1602, 1575, 1608, 1604],
      [1575, 1587, 1605, 32, 1575, 1604, 1593, 1602, 1583],
      [1576, 1606, 1583, 32, 1575, 1604, 1593, 1605, 1604],
      [1576, 1610, 1575, 1606, 32, 1575, 1604, 1593, 1605, 1604],
      [1605, 1575, 1610, 1608, 1575, 1586, 1610, 32, 1576, 1575, 1604, 1605, 1578, 1585],
      [1593, 1583, 1583, 32, 1575, 1604, 1610, 1608, 1605, 1610, 1575, 1578],
      [1575, 1604, 1601, 1574, 1607],
      [1575, 1604, 1575, 1580, 1605, 1575, 1604, 1610],
      [1576, 1575, 1604, 1582, 1589, 1605, 32, 1593, 1604, 1610],
      [1605, 1604, 1581, 1608, 1592, 1607],
      [1575, 1604, 1581, 1575, 1604, 1577],
      [1578, 1575, 1585, 1610, 1582, 32, 1575, 1604, 1578, 1571, 1603, 1610, 1583],
      [1608, 1602, 1578, 32, 1575, 1604, 1578, 1571, 1603, 1610, 1583],
      [1575, 1604, 1605, 1572, 1603, 1583, 32, 1576, 1608, 1575, 1587, 1591, 1577]]"

definition USER_HEADERS :: "jsstring list" where
  "USER_HEADERS = [str ''Email'', str ''Password'', str ''Role'']"

definition DATA_HEADERS :: "jsstring list" where
  "DATA_HEADERS = [str ''Contract Name'', str ''Work Item'']"

definition CONTRACTOR_LIST_HEADERS :: "jsstring list" where
  "CONTRACTOR_LIST_HEADERS = [str ''Contractor Name'']"

definition js_endsWith :: "jsstring \<Rightarrow> jsstring \<Rightarrow> bool" where
  "js_endsWith s suffix \<longleftrightarrow>
     length suffix \<le> length s \<and> drop (length s - length suffix) s = suffix"

subsection \<open>\<open>ensureSheetAndHeaders\<close>\<close>

text \<open>Whatever is thrown inside the function is caught and replaced by one error.\<close>

definition init_failed :: "jsstring \<Rightarrow> request list \<Rightarrow> (error + unit) \<times> request list" where
  "init_failed sheetName tr = (Inl (Error (FailedToInitializeSheet sheetName)), tr)"

text \<open>The header row of a submissions sheet is rewritten when it is shorter than the
  required one or lacks one of the required headers.\<close>

definition update_headers ::
  "store \<Rightarrow> jsstring \<Rightarrow> row \<Rightarrow> request list \<Rightarrow> (error + unit) \<times> request list" where
  "update_headers st sheetName currentHeaders tr =
     (if length currentHeaders < length SUBMISSION_HEADERS
         \<or> \<not> list_all (\<lambda>h. VString h \<in> set currentHeaders) SUBMISSION_HEADERS
      then
        (let rq = ValuesUpdate (sheetName @ str ''!A1'') [map VString SUBMISSION_HEADERS]
         in case write_request st tr rq of
              Some e \<Rightarrow> init_failed sheetName (tr @ [rq])
            | None \<Rightarrow> (Inr (), tr @ [rq]))
      else (Inr (), tr))"

text \<open>A new sheet gets its header row.\<close>

definition create_sheet ::
  "store \<Rightarrow> jsstring \<Rightarrow> jsstring list \<Rightarrow> request list \<Rightarrow> (error + unit) \<times> request list" where
  "create_sheet st sheetName headers tr =
     (let rq1 = AddSheet sheetName;
          rq2 = ValuesUpdate (sheetName @ str ''!A1'') [map VString headers]
      in case write_request st tr rq1 of
           Some e \<Rightarrow> init_failed sheetName (tr @ [rq1])
         | None \<Rightarrow>
             (case write_request st (tr @ [rq1]) rq2 of
                Some e \<Rightarrow> init_failed sheetName (tr @ [rq1, rq2])
              | None \<Rightarrow> (Inr (), tr @ [rq1, rq2])))"

text \<open>The header check of an existing submissions sheet. When the rng of the first row
  comes back as an empty array, its first element is \<open>undefined\<close> and reading its length
  throws.\<close>

definition check_headers ::
  "store \<Rightarrow> jsstring \<Rightarrow> request list \<Rightarrow> (error + unit) \<times> request list" where
  "check_headers st sheetName tr =
     (let rng = sheetName @ str ''!1:1''
      in case values_get st tr rng of
           Inl e \<Rightarrow> init_failed sheetName (tr @ [ValuesGet rng])
         | Inr None \<Rightarrow> update_headers st sheetName [] (tr @ [ValuesGet rng])
         | Inr (Some []) \<Rightarrow> init_failed sheetName (tr @ [ValuesGet rng])
         | Inr (Some (currentHeaders # _)) \<Rightarrow>
             update_headers st sheetName currentHeaders (tr @ [ValuesGet rng]))"

definition ensureSheetAndHeaders ::
  "store \<Rightarrow> jsstring \<Rightarrow> jsstring list \<Rightarrow> request list \<Rightarrow> (error + unit) \<times> request list" where
  "ensureSheetAndHeaders st sheetName headers tr =
     (case spreadsheets_get st tr of
        Inl e \<Rightarrow> init_failed sheetName (tr @ [SpreadsheetsGet])
      | Inr titles \<Rightarrow>
          if sheetName \<notin> set titles then create_sheet st sheetName headers (tr @ [SpreadsheetsGet])
          else if js_endsWith sheetName (str ''REQUEST'')
          then check_headers st sheetName (tr @ [SpreadsheetsGet])
          else (Inr (), tr @ [SpreadsheetsGet]))"

section \<open>The reference lists\<close>

text \<open>The first cells of the rows, without the falsy ones and without repetitions (a
  \<open>Set\<close> keeps the first occurrence of each value).\<close>

definition unique_names :: "row list \<Rightarrow> jsval list" where
  "unique_names values = rev (remdups (rev (filter truthy (map (\<lambda>r. cell r 0) values))))"

text \<open>The common body of the three list operations: make sure the sheet exists, read
  the range, return the unique names; anything thrown is replaced by the error \<open>err\<close>.\<close>

definition fetch_list ::
  "store \<Rightarrow> jsstring \<Rightarrow> jsstring list \<Rightarrow> jsstring \<Rightarrow> message
     \<Rightarrow> (error + jsval list) \<times> request list" where
  "fetch_list st sheetName headers rng err =
     (case ensureSheetAndHeaders st sheetName headers [] of
        (Inl e, tr) \<Rightarrow> (Inl (Error err), tr)
      | (Inr _, tr) \<Rightarrow>
          (case values_get st tr rng of
             Inl e \<Rightarrow> (Inl (Error err), tr @ [ValuesGet rng])
           | Inr None \<Rightarrow> (Inr [], tr @ [ValuesGet rng])
           | Inr (Some values) \<Rightarrow>
               (Inr (if values \<noteq> [] then unique_names values else []), tr @ [ValuesGet rng])))"

definition hardcoded_contractors :: "jsval list" where
  "hardcoded_contractors =
     [VString [1588, 1585, 1603, 1577, 32, 1575, 1604, 1576, 1606, 1575, 1569, 32, 1575, 1604,
               1581, 1583, 1610, 1579, 1577],
      VString [1605, 1602, 1575, 1608, 1604, 1575, 1578, 32, 1575, 1604, 1582, 1604, 1610, 1580],
      VString [1607, 1606, 1583, 1587, 1577, 32, 1575, 1604, 1605, 1587, 1578, 1602, 1576, 1604],
      VString [1605, 1580, 1605, 1608, 1593, 1577, 32, 1575, 1604, 1578, 1593, 1605, 1610, 1585]]"

definition hardcoded_contracts :: "jsval list" where
  "hardcoded_contracts =
     [VString [1593, 1602, 1583, 32, 1605, 1588, 1585, 1608, 1593, 32, 65],
      VString [1593, 1602, 1583, 32, 1605, 1588, 1585, 1608, 1593, 32, 66],
      VString [1593, 1602, 1583, 32, 1589, 1610, 1575, 1606, 1577]]"

definition hardcoded_work_items :: "jsval list" where
  "hardcoded_work_items =
     [VString [1576, 1606, 1583, 32, 49],
      VString [1576, 1606, 1583, 32, 50],
      VString [1576, 1606, 1583, 32, 51]]"

text \<open>In each operation \<open>configured\<close> tells whether \<open>getSheetsApi\<close> returned an API object
  (the credentials and the sheet identifier are set and the credentials parse).\<close>

definition getContractorList :: "bool \<Rightarrow> store \<Rightarrow> (error + jsval list) \<times> request list" where
  "getContractorList configured st =
     (if \<not> configured then (Inr hardcoded_contractors, [])
      else fetch_list st CONTRACTORS_SHEET_NAME CONTRACTOR_LIST_HEADERS
             (CONTRACTORS_SHEET_NAME @ str ''!A2:A'') FailedToFetchContractorList)"

definition getContractList :: "bool \<Rightarrow> store \<Rightarrow> jsstring \<Rightarrow> (error + jsval list) \<times> request list" where
  "getContractList configured st company_name =
     (if \<not> configured then (Inr hardcoded_contracts, [])
      else fetch_list st (company_name @ str '' DATA'') DATA_HEADERS
             (company_name @ str '' DATA'' @ str ''!A2:A'')
             (FailedToFetchContractList (company_name @ str '' DATA'')))"

definition getWorkItemList :: "bool \<Rightarrow> store \<Rightarrow> jsstring \<Rightarrow> (error + jsval list) \<times> request list" where
  "getWorkItemList configured st company_name =
     (if \<not> configured then (Inr hardcoded_work_items, [])
      else fetch_list st (company_name @ str '' DATA'') DATA_HEADERS
             (company_name @ str '' DATA'' @ str ''!B2:B'')
             (FailedToFetchWorkItemList (company_name @ str '' DATA'')))"

section \<open>Submission: \<open>submitDeductions\<close>\<close>

text \<open>The payload of a submission; \<open>Company\<close> is one of the strings \<open>DMC\<close> and \<open>CURVE\<close>.\<close>

record payload =
  payload_company :: jsstring
  payload_contractors :: "contractor list"
  payload_userEmail :: jsstring

text \<open>The readings of the clock in a call: \<open>new Date().toISOString()\<close>, and the date
  \<open>YYYY-MM-DD\<close> and the time \<open>HH:MM\<close> of the Cairo time zone.\<close>

record clock =
  iso_now :: jsstring
  cairo_date :: jsstring
  cairo_time :: jsstring

text \<open>\<open>Number(x) || 0\<close>\<close>

definition number_or_zero :: "numfield \<Rightarrow> jsnum" where
  "number_or_zero x = (if truthy_num (Number x) then Number x else Fin 0)"

definition submit_grand_total :: "contractor list \<Rightarrow> jsnum" where
  "submit_grand_total cs =
     foldl (\<lambda>total c.
              js_add total
                (foldl (\<lambda>deductionTotal d.
                          js_add deductionTotal
                            (js_mul (number_or_zero (quantity d)) (number_or_zero (unitPrice d))))
                       (Fin 0) (deductions c)))
           (Fin 0) cs"

definition newSubmission :: "js_env \<Rightarrow> clock \<Rightarrow> payload \<Rightarrow> submission" where
  "newSubmission env clk p =
     \<lparr> reportId = randomUUID env 0,
       timestamp = iso_now clk,
       userEmail = VString (payload_userEmail p),
       status = VString pending_review,
       company = VString (payload_company p),
       contractors = payload_contractors p,
       grandTotal = submit_grand_total (payload_contractors p) \<rparr>"

text \<open>The row that the flatten step writes for one deduction of one contractor.\<close>

definition meterEquivalent :: "js_env \<Rightarrow> deduction \<Rightarrow> jsstring" where
  "meterEquivalent env d =
     (case meterEquivalentValue d of
        NumF n \<Rightarrow> if truthy_num n then number_to_string env n @ [32] @ meterEquivalentUnit d else []
      | EmptyF \<Rightarrow> [])"

definition flat_row :: "js_env \<Rightarrow> jsstring \<Rightarrow> jsstring \<Rightarrow> payload \<Rightarrow> contractor \<Rightarrow> deduction \<Rightarrow> row" where
  "flat_row env date time p c d =
     [VString date,
      VString time,
      VString (payload_userEmail p),
      VString (payload_company p),
      contractorName c,
      js_or (contractName d) (VString []),
      js_or (itemName d) (VString []),
      js_or (workDescription d) (VString []),
      VString (meterEquivalent env d),
      VNumber (number_or_zero (quantity d)),
      VNumber (number_or_zero (unitPrice d)),
      VNumber (js_mul (number_or_zero (quantity d)) (number_or_zero (unitPrice d))),
      js_or (personName d) (VString []),
      js_or (notes c) (VString []),
      VString pending_review]"

definition rowsToAppend :: "js_env \<Rightarrow> jsstring \<Rightarrow> jsstring \<Rightarrow> payload \<Rightarrow> row list" where
  "rowsToAppend env date time p =
     concat (map (\<lambda>c. map (flat_row env date time p c) (deductions c)) (payload_contractors p))"

text \<open>The \<open>catch\<close> of the submission chooses its message by the \<open>code\<close> of what was
  thrown.\<close>

definition friendlyMessage :: "error \<Rightarrow> message" where
  "friendlyMessage e =
     (case e of
        StoreFailure (Some c) _ \<Rightarrow>
          if c = 403 then PermissionDenied else if c = 404 then FileNotFound else SendFailed
      | _ \<Rightarrow> SendFailed)"

text \<open>What an operation tells its caller when it returns \<open>{success, message}\<close>; the
  texts are kept symbolic.\<close>

datatype notice = SavedLocally | SentForReview | UpdatedLocally | NotConfigured | StatusUpdated jsstring

text \<open>The part of \<open>submitDeductions\<close> after the local copy was saved.\<close>

definition send_to_sheet ::
  "js_env \<Rightarrow> clock \<Rightarrow> store \<Rightarrow> payload \<Rightarrow> (error + bool \<times> notice) \<times> request list" where
  "send_to_sheet env clk st p =
     (let submissionsSheetName = payload_company p @ str '' REQUEST''
      in case ensureSheetAndHeaders st submissionsSheetName SUBMISSION_HEADERS [] of
           (Inl e, tr) \<Rightarrow> (Inl (Error (friendlyMessage e)), tr)
         | (Inr _, tr) \<Rightarrow>
             (let rows = rowsToAppend env (cairo_date clk) (cairo_time clk) p;
                  rq = ValuesAppend (submissionsSheetName @ str ''!A1'') rows
              in if rows \<noteq> [] then
                   (case write_request st tr rq of
                      Some e \<Rightarrow> (Inl (Error (friendlyMessage e)), tr @ [rq])
                    | None \<Rightarrow> (Inr (True, SentForReview), tr @ [rq]))
                 else (Inr (True, SentForReview), tr)))"

text \<open>
  \<open>submitDeductions\<close>: the state is the list \<open>mockSubmissions\<close> of the process. The new
  submission is pushed first; then the API is looked up, and without it the call returns.
  The result is the outcome, the requests made, and the list after the call.
\<close>

definition submitDeductions ::
  "js_env \<Rightarrow> clock \<Rightarrow> bool \<Rightarrow> store \<Rightarrow> submission list \<Rightarrow> payload
     \<Rightarrow> ((error + bool \<times> notice) \<times> request list) \<times> submission list" where
  "submitDeductions env clk configured st mockSubmissions p =
     (let mockSubmissions' = mockSubmissions @ [newSubmission env clk p]
      in if \<not> configured then ((Inr (True, SavedLocally), []), mockSubmissions')
         else (send_to_sheet env clk st p, mockSubmissions'))"

section \<open>Users: \<open>getUserRoleByEmail\<close> and \<open>validateUser\<close>\<close>

datatype user_role = User | Admin

fun role_string :: "user_role \<Rightarrow> jsstring" where
  "role_string User = str ''user''"
| "role_string Admin = str ''admin''"

text \<open>\<open>(cell || dflt)\<close> as the receiver of a string method: a truthy number has no such
  method, and the call throws.\<close>

definition text_or :: "jsval \<Rightarrow> jsstring \<Rightarrow> error + jsstring" where
  "text_or v dflt =
     (case js_or v (VString dflt) of
        VString s \<Rightarrow> Inr s
      | _ \<Rightarrow> Inl TypeError)"

text \<open>The loop of \<open>getUserRoleByEmail\<close> over the rows of the users sheet.\<close>

fun find_role :: "js_env \<Rightarrow> jsstring \<Rightarrow> row list \<Rightarrow> error + user_role option" where
  "find_role env email [] = Inr None"
| "find_role env email (r # rs) =
     (case text_or (cell r 0) [] of
        Inl e \<Rightarrow> Inl e
      | Inr sheetEmail \<Rightarrow>
          if toLowerCase env (js_trim sheetEmail) = toLowerCase env (js_trim email) then
            (case text_or (cell r 2) (str ''user'') of
               Inl e \<Rightarrow> Inl e
             | Inr role \<Rightarrow>
                 Inr (Some (if toLowerCase env (js_trim role) = str ''admin'' then Admin else User)))
          else find_role env email rs)"

text \<open>What is thrown between \<open>try\<close> and \<open>catch\<close> is logged, and the function returns
  \<open>null\<close> after the \<open>catch\<close>.\<close>

definition getUserRoleByEmail ::
  "js_env \<Rightarrow> bool \<Rightarrow> store \<Rightarrow> jsstring \<Rightarrow> (error + user_role option) \<times> request list" where
  "getUserRoleByEmail env configured st email =
     (if email = [] then (Inr None, [])
      else if \<not> configured then
        (if js_trim (toLowerCase env email) = str ''admin@test.com'' then (Inr (Some Admin), [])
         else if js_trim (toLowerCase env email) = str ''user@test.com'' then (Inr (Some User), [])
         else (Inr None, []))
      else
        (case ensureSheetAndHeaders st USERS_SHEET_NAME USER_HEADERS [] of
           (Inl e, tr) \<Rightarrow> (Inr None, tr)
         | (Inr _, tr) \<Rightarrow>
             (let rng = USERS_SHEET_NAME @ str ''!A2:C''
              in case values_get st tr rng of
                   Inl e \<Rightarrow> (Inr None, tr @ [ValuesGet rng])
                 | Inr None \<Rightarrow> (Inr None, tr @ [ValuesGet rng])
                 | Inr (Some rows) \<Rightarrow>
                     (case find_role env email rows of
                        Inl e \<Rightarrow> (Inr None, tr @ [ValuesGet rng])
                      | Inr found \<Rightarrow> (Inr found, tr @ [ValuesGet rng])))))"

text \<open>The test that \<open>validateUser\<close> makes on one row of the users sheet.\<close>

definition row_matches ::
  "js_env \<Rightarrow> jsstring \<Rightarrow> jsstring \<Rightarrow> user_role \<Rightarrow> row \<Rightarrow> error + bool" where
  "row_matches env email password_provided expectedRole r =
     (case text_or (cell r 0) [] of
        Inl e \<Rightarrow> Inl e
      | Inr sheetEmail \<Rightarrow>
          (case text_or (cell r 1) [] of
             Inl e \<Rightarrow> Inl e
           | Inr sheetPassword \<Rightarrow>
               (case text_or (cell r 2) (str ''user'') of
                  Inl e \<Rightarrow> Inl e
                | Inr sheetRole \<Rightarrow>
                    Inr (toLowerCase env (js_trim sheetEmail) = toLowerCase env (js_trim email)
                         \<and> js_trim sheetPassword = js_trim password_provided
                         \<and> toLowerCase env (js_trim sheetRole) = role_string expectedRole))))"

fun validate_rows ::
  "js_env \<Rightarrow> jsstring \<Rightarrow> jsstring \<Rightarrow> user_role \<Rightarrow> row list
     \<Rightarrow> error + bool \<times> user_role option" where
  "validate_rows env email password_provided expectedRole [] = Inr (False, None)"
| "validate_rows env email password_provided expectedRole (r # rs) =
     (case row_matches env email password_provided expectedRole r of
        Inl e \<Rightarrow> Inl e
      | Inr True \<Rightarrow> Inr (True, Some expectedRole)
      | Inr False \<Rightarrow> validate_rows env email password_provided expectedRole rs)"

text \<open>The result is the pair of \<open>isValid\<close> and \<open>role\<close>.\<close>

definition validateUser ::
  "js_env \<Rightarrow> bool \<Rightarrow> store \<Rightarrow> jsstring \<Rightarrow> jsstring \<Rightarrow> user_role
     \<Rightarrow> (error + bool \<times> user_role option) \<times> request list" where
  "validateUser env configured st email password_provided expectedRole =
     (if \<not> configured then
        (if email = str ''admin@test.com'' \<and> password_provided = str ''123'' \<and> expectedRole = Admin
         then (Inr (True, Some Admin), [])
         else if email = str ''user@test.com'' \<and> password_provided = str ''123''
                 \<and> expectedRole = User
         then (Inr (True, Some User), [])
         else (Inr (False, None), []))
      else
        (case ensureSheetAndHeaders st USERS_SHEET_NAME USER_HEADERS [] of
           (Inl e, tr) \<Rightarrow> (Inr (False, None), tr)
         | (Inr _, tr) \<Rightarrow>
             (let rng = USERS_SHEET_NAME @ str ''!A2:C''
              in case values_get st tr rng of
                   Inl e \<Rightarrow> (Inr (False, None), tr @ [ValuesGet rng])
                 | Inr None \<Rightarrow> (Inr (False, None), tr @ [ValuesGet rng])
                 | Inr (Some rows) \<Rightarrow>
                     (case validate_rows env email password_provided expectedRole rows of
                        Inl e \<Rightarrow> (Inr (False, None), tr @ [ValuesGet rng])
                      | Inr result \<Rightarrow> (Inr result, tr @ [ValuesGet rng])))))"

section \<open>History: \<open>getSubmissionHistory\<close> and \<open>getAllSubmissions\<close>\<close>

text \<open>
  Both operations are modelled for a configured store. (Without the API they read the
  list \<open>mockSubmissions\<close> and order it by parsed dates; no store is contacted on that
  branch, and it is not part of the model.)

  Reading the submissions sheet of one company: whatever is thrown is caught inside the
  loop over the companies, and the company contributes no row.
\<close>

definition read_company :: "store \<Rightarrow> jsstring \<Rightarrow> request list \<Rightarrow> row list \<times> request list" where
  "read_company st company_name tr =
     (let sheetName = company_name @ str '' REQUEST''; rng = sheetName @ str ''!A2:Z''
      in case ensureSheetAndHeaders st sheetName SUBMISSION_HEADERS tr of
           (Inl e, tr1) \<Rightarrow> ([], tr1)
         | (Inr _, tr1) \<Rightarrow>
             (case values_get st tr1 rng of
                Inl e \<Rightarrow> ([], tr1 @ [ValuesGet rng])
              | Inr None \<Rightarrow> ([], tr1 @ [ValuesGet rng])
              | Inr (Some values) \<Rightarrow> (values, tr1 @ [ValuesGet rng])))"

text \<open>The test \<open>/^\d{4}-\d{2}-\d{2}$/\<close> on a string.\<close>

definition is_iso_date :: "jsstring \<Rightarrow> bool" where
  "is_iso_date s \<longleftrightarrow>
     length s = 10 \<and> list_all is_digit (take 4 s) \<and> s ! 4 = 45
     \<and> list_all is_digit (take 2 (drop 5 s)) \<and> s ! 7 = 45 \<and> list_all is_digit (drop 8 s)"

definition in_date_range :: "jsstring \<Rightarrow> jsstring \<Rightarrow> row \<Rightarrow> bool" where
  "in_date_range startDate endDate r =
     (case cell r 0 of
        VString rowDate \<Rightarrow> is_iso_date rowDate \<and> startDate \<le> rowDate \<and> rowDate \<le> endDate
      | _ \<Rightarrow> False)"

text \<open>The optional parameters \<open>startDate\<close> and \<open>endDate\<close> are \<open>None\<close> when absent; the
  filter applies when both are non-empty strings.\<close>

definition filter_by_dates :: "jsstring option \<Rightarrow> jsstring option \<Rightarrow> row list \<Rightarrow> row list" where
  "filter_by_dates startDate endDate rows =
     (case (startDate, endDate) of
        (Some s, Some e) \<Rightarrow> if s \<noteq> [] \<and> e \<noteq> [] then filter (in_date_range s e) rows else rows
      | _ \<Rightarrow> rows)"

definition getSubmissionHistory ::
  "js_env \<Rightarrow> store \<Rightarrow> jsstring \<Rightarrow> jsstring option \<Rightarrow> jsstring option
     \<Rightarrow> (error + submission list) \<times> request list" where
  "getSubmissionHistory env st user startDate endDate =
     (let (dmc, tr1) = read_company st (str ''DMC'') [];
          (curve, tr2) = read_company st (str ''CURVE'') tr1;
          allUserRows = filter (\<lambda>r. cell r 2 = VString user) dmc
                        @ filter (\<lambda>r. cell r 2 = VString user) curve
      in case parseSubmissionsFromRows env (filter_by_dates startDate endDate allUserRows) of
           Inl e \<Rightarrow> (Inl (Error HistoryFetchFailed), tr2)
         | Inr ss \<Rightarrow> (Inr ss, tr2))"

definition getAllSubmissions ::
  "js_env \<Rightarrow> store \<Rightarrow> (error + submission list) \<times> request list" where
  "getAllSubmissions env st =
     (let (dmc, tr1) = read_company st (str ''DMC'') [];
          (curve, tr2) = read_company st (str ''CURVE'') tr1
      in case parseSubmissionsFromRows env (dmc @ curve) of
           Inl e \<Rightarrow> (Inl (Error AllReportsFetchFailed), tr2)
         | Inr ss \<Rightarrow> (Inr ss, tr2))"

section \<open>Status update: \<open>updateReportStatus\<close>\<close>

text \<open>The decimal numeral of a row number.\<close>

fun nat_to_string :: "nat \<Rightarrow> jsstring" where
  "nat_to_string n = (if n < 10 then [48 + n] else nat_to_string (n div 10) @ [48 + n mod 10])"

text \<open>The key of a stored row, \<open>`report-${row[0]}-${row[1]}`.replace(/\s|:/g, '-')\<close>.\<close>

definition comparableRowId :: "js_env \<Rightarrow> row \<Rightarrow> jsstring" where
  "comparableRowId env r =
     replace_space_colon
       (str ''report-'' @ to_string env (cell r 0) @ [45] @ to_string env (cell r 1))"

text \<open>The sheet rows to update: the row at index \<open>i\<close> of the data read from \<open>A2\<close> on is the
  sheet row \<open>i + 2\<close>.\<close>

definition rowIndicesToUpdate :: "js_env \<Rightarrow> jsstring \<Rightarrow> row list \<Rightarrow> nat list" where
  "rowIndicesToUpdate env rid rows =
     map (\<lambda>i. i + 2)
       (filter (\<lambda>i. js_startsWith (comparableRowId env (rows ! i)) rid) [0..<length rows])"

text \<open>One entry of the batch: the cells \<open>O\<close> to \<open>R\<close> of a sheet row get the status, the
  date and the time of the decision, and the address of the admin.\<close>

definition status_request ::
  "clock \<Rightarrow> jsstring \<Rightarrow> jsstring \<Rightarrow> jsstring \<Rightarrow> nat \<Rightarrow> jsstring \<times> row list" where
  "status_request clk sheetName newStatus adminEmail rowIndex =
     (sheetName @ str ''!O'' @ nat_to_string rowIndex @ str '':R'' @ nat_to_string rowIndex,
      [[VString newStatus, VString (cairo_date clk), VString (cairo_time clk), VString adminEmail]])"

text \<open>The \<open>catch\<close> throws a new error with the message of what was caught, or with a fixed
  message when that was not an \<open>Error\<close>.\<close>

definition rethrow :: "error \<Rightarrow> error" where
  "rethrow e =
     Error (case e of
              Error m \<Rightarrow> m
            | TypeError \<Rightarrow> RuntimeText
            | StoreFailure _ text \<Rightarrow> StoreText text
            | NotAnError \<Rightarrow> StatusUpdateFailed)"

text \<open>Without the API the status is changed in \<open>mockSubmissions\<close>, at the first
  submission with the given identifier.\<close>

definition update_mock :: "jsstring \<Rightarrow> jsstring \<Rightarrow> submission list \<Rightarrow> (bool \<times> notice) \<times> submission list" where
  "update_mock rid newStatus mockSubmissions =
     (case find (\<lambda>i. reportId (mockSubmissions ! i) = rid) [0..<length mockSubmissions] of
        Some mockIndex \<Rightarrow>
          ((True, UpdatedLocally),
           mockSubmissions[mockIndex := (mockSubmissions ! mockIndex)\<lparr>status := VString newStatus\<rparr>])
      | None \<Rightarrow> ((False, NotConfigured), mockSubmissions))"

definition updateReportStatus ::
  "js_env \<Rightarrow> clock \<Rightarrow> bool \<Rightarrow> store \<Rightarrow> submission list
     \<Rightarrow> jsstring \<Rightarrow> jsstring \<Rightarrow> jsstring \<Rightarrow> jsstring
     \<Rightarrow> ((error + bool \<times> notice) \<times> request list) \<times> submission list" where
  "updateReportStatus env clk configured st mockSubmissions rid company_name newStatus adminEmail =
     (if \<not> configured then
        (case update_mock rid newStatus mockSubmissions of
           (result, mockSubmissions') \<Rightarrow> ((Inr result, []), mockSubmissions'))
      else
        (let sheetName = company_name @ str '' REQUEST''; rng = sheetName @ str ''!A2:Z''
         in case values_get st [] rng of
              Inl e \<Rightarrow> ((Inl (rethrow e), [ValuesGet rng]), mockSubmissions)
            | Inr None \<Rightarrow>
                ((Inl (rethrow (Error (NoDataFound sheetName))), [ValuesGet rng]), mockSubmissions)
            | Inr (Some rows) \<Rightarrow>
                if rowIndicesToUpdate env rid rows = [] then
                  ((Inl (rethrow (Error (ReportNotFound rid))), [ValuesGet rng]), mockSubmissions)
                else
                  (let rq = ValuesBatchUpdate
                              (map (status_request clk sheetName newStatus adminEmail)
                                   (rowIndicesToUpdate env rid rows))
                   in case write_request st [ValuesGet rng] rq of
                        Some e \<Rightarrow> ((Inl (rethrow e), [ValuesGet rng, rq]), mockSubmissions)
                      | None \<Rightarrow>
                          ((Inr (True, StatusUpdated newStatus), [ValuesGet rng, rq]),
                           mockSubmissions))))"

section \<open>Example inputs and the notions of the specification\<close>

text \<open>The unit \<open>U+0645 U+062A U+0631\<close>, space, \<open>U+0645 U+0631 U+0628 U+0639\<close> (square metre), one of
  the three units that the form offers; each of them contains a space.\<close>

definition square_metre :: jsstring where
  "square_metre = [1605, 1578, 1585, 32, 1605, 1585, 1576, 1593]"

text \<open>A stored row with a given meter-equivalent cell, quantity 2 and unit price 3.\<close>

definition meter_row :: "jsval \<Rightarrow> row" where
  "meter_row m = [VString (str ''2024-06-01''), VString (str ''10:00''), VString (str ''user@test.com''),
     VString (str ''DMC''), VString (str ''A''), VString (str ''contract''), VString (str ''item''),
     VString (str ''work''), m, VString (str ''2''), VString (str ''3'')]"

text \<open>A stored row of the same report whose quantity cell is not a number.\<close>

definition non_numeric_row :: row where
  "non_numeric_row = [VString (str ''2024-06-01''), VString (str ''10:00''), VString (str ''user@test.com''),
     VString (str ''DMC''), VString (str ''A''), VString (str ''contract''), VString (str ''item''),
     VString (str ''work''), VString [], VString (str ''abc''), VString (str ''5'')]"

text \<open>
  The grand total as the specification describes it: the sum over the rows of quantity
  times unit price, where a cell that does not parse as a number counts as 0.
\<close>

definition nan_as_zero :: "jsnum \<Rightarrow> jsnum" where
  "nan_as_zero n = (if n = NaN then Fin 0 else n)"

definition spec_line_total :: "row \<Rightarrow> jsnum" where
  "spec_line_total r = js_mul (nan_as_zero (parseFloat (cell r 9))) (nan_as_zero (parseFloat (cell r 10)))"

definition spec_grand_total :: "row list \<Rightarrow> jsnum" where
  "spec_grand_total rows = foldl (\<lambda>total r. js_add total (spec_line_total r)) (Fin 0) rows"

text \<open>A payload of one contractor with two deductions, of quantities 2 and 1 and unit
  prices 3 and 5, for a given contractor name.\<close>

definition two_items :: "deduction list" where
  "two_items =
     [\<lparr> deduction_id = str ''d1'', contractName = VString (str ''contract''),
         itemName = VString (str ''item 1''), workDescription = VString (str ''work''),
         meterEquivalentValue = EmptyF, meterEquivalentUnit = square_metre,
         quantity = NumF (Fin 2), unitPrice = NumF (Fin 3), personName = VString [] \<rparr>,
      \<lparr> deduction_id = str ''d2'', contractName = VString (str ''contract''),
         itemName = VString (str ''item 2''), workDescription = VString (str ''work''),
         meterEquivalentValue = EmptyF, meterEquivalentUnit = square_metre,
         quantity = NumF (Fin 1), unitPrice = NumF (Fin 5), personName = VString [] \<rparr>]"

definition payload_for :: "jsstring \<Rightarrow> payload" where
  "payload_for name =
     \<lparr> payload_company = str ''DMC'',
       payload_contractors =
         [\<lparr> contractor_id = str ''c1'', contractorName = VString name,
             notes = VString (str ''note''), deductions = two_items \<rparr>],
       payload_userEmail = str ''user@test.com'' \<rparr>"

subsection \<open>Example stores and notions for the user and status operations\<close>

text \<open>A store of which every call throws.\<close>

definition failing_store :: store where
  "failing_store =
     \<lparr> spreadsheets_get = (\<lambda>hist. Inl (StoreFailure None (str ''unavailable''))),
       values_get = (\<lambda>hist rng. Inl (StoreFailure None (str ''unavailable''))),
       write_request = (\<lambda>hist rq. Some (StoreFailure None (str ''unavailable''))) \<rparr>"

text \<open>A store whose \<open>Users\<close> sheet exists and holds the given rows.\<close>

definition users_store :: "row list \<Rightarrow> store" where
  "users_store rows =
     \<lparr> spreadsheets_get = (\<lambda>hist. Inr [USERS_SHEET_NAME]),
       values_get = (\<lambda>hist rng. Inr (Some rows)),
       write_request = (\<lambda>hist rq. None) \<rparr>"

text \<open>A users sheet with an address and a role that are not in lower case, and a row
  without a role cell.\<close>

definition mixed_case_users :: "row list" where
  "mixed_case_users =
     [[VString (str ''Boss@Test.com ''), VString (str ''pw''), VString (str ''Admin'')],
      [VString (str ''worker@test.com''), VString (str ''pw'')]]"

text \<open>
  A row as the store returns it holds strings. The test on a row throws when one of its
  first three cells is a number other than 0 and NaN (such a cell is truthy and has no
  method \<open>trim\<close>); \<open>text_cells\<close> says that the row has no such cell. The text of a cell is
  its string, and the empty string when the cell is absent (or is a number that is 0 or
  NaN, which \<open>||\<close> replaces like an absent cell). The stored role of a row is the text of
  its role cell, \<open>user\<close> when that is empty, trimmed and in lower case.
\<close>

definition text_cells :: "row \<Rightarrow> bool" where
  "text_cells r \<longleftrightarrow>
     list_all (\<lambda>i. case cell r i of VNumber n \<Rightarrow> \<not> truthy_num n | _ \<Rightarrow> True) [0, 1, 2]"

definition cell_text :: "jsval \<Rightarrow> jsstring" where
  "cell_text v = (case v of VString s \<Rightarrow> s | _ \<Rightarrow> [])"

definition stored_role :: "js_env \<Rightarrow> row \<Rightarrow> jsstring" where
  "stored_role env r =
     toLowerCase env
       (js_trim (if cell_text (cell r 2) = [] then str ''user'' else cell_text (cell r 2)))"

definition stored_matches ::
  "js_env \<Rightarrow> jsstring \<Rightarrow> jsstring \<Rightarrow> user_role \<Rightarrow> row \<Rightarrow> bool" where
  "stored_matches env email password_provided expectedRole r \<longleftrightarrow>
     toLowerCase env (js_trim (cell_text (cell r 0))) = toLowerCase env (js_trim email)
     \<and> js_trim (cell_text (cell r 1)) = js_trim password_provided
     \<and> stored_role env r = role_string expectedRole"

text \<open>A store that holds a users sheet with no data row: the answer of \<open>values.get\<close> has no
  field \<open>values\<close>.\<close>

definition empty_users_store :: store where
  "empty_users_store =
     \<lparr> spreadsheets_get = (\<lambda>hist. Inr [str ''Users'']),
       values_get = (\<lambda>hist rng. Inr None),
       write_request = (\<lambda>hist rq. None) \<rparr>"






subsection \<open>Notions for the failures of store calls\<close>

text \<open>
  For the requests \<open>new\<close> that an operation makes after the requests \<open>hist\<close>: \<open>clean\<close> says
  that none of them failed, \<open>failed_last\<close> that the last of them failed and none before it,
  so that nothing was asked of the store after the failure.
\<close>

definition clean :: "store \<Rightarrow> request list \<Rightarrow> request list \<Rightarrow> bool" where
  "clean st hist new \<longleftrightarrow> True \<notin> set (outcomes_from st hist new)"

definition failed_last :: "store \<Rightarrow> request list \<Rightarrow> request list \<Rightarrow> bool" where
  "failed_last st hist new \<longleftrightarrow>
     new \<noteq> [] \<and> True \<notin> set (butlast (outcomes_from st hist new))
     \<and> last (outcomes_from st hist new)"

text \<open>A result that is an \<open>Error\<close> made by the operation itself.\<close>

fun is_Error :: "error + 'a \<Rightarrow> bool" where
  "is_Error (Inl (Error m)) = True"
| "is_Error _ = False"

text \<open>
  The three ways in which an operation treats a failed call. It re-raises: either no call
  failed, or the failed call was its last and it throws an \<open>Error\<close>. It swallows: either no
  call failed, or the failed call was its last and it returns its negative result. The
  reading of one company's sheet skips: the calls it adds to \<open>hist\<close> either all succeeded,
  or the failed one was the last of them and the company contributes no row.
\<close>

definition reraises :: "store \<Rightarrow> (error + 'a) \<times> request list \<Rightarrow> bool" where
  "reraises st out \<longleftrightarrow>
     clean st [] (snd out) \<or> (failed_last st [] (snd out) \<and> is_Error (fst out))"

definition swallows :: "store \<Rightarrow> 'a \<Rightarrow> (error + 'a) \<times> request list \<Rightarrow> bool" where
  "swallows st negative out \<longleftrightarrow>
     clean st [] (snd out) \<or> (failed_last st [] (snd out) \<and> fst out = Inr negative)"

definition skips :: "store \<Rightarrow> request list \<Rightarrow> row list \<times> request list \<Rightarrow> bool" where
  "skips st hist out \<longleftrightarrow>
     take (length hist) (snd out) = hist
     \<and> (clean st hist (drop (length hist) (snd out))
        \<or> (failed_last st hist (drop (length hist) (snd out)) \<and> fst out = []))"

text \<open>The sum of a list of numbers from 0, and the product that the reconstruction
  computes for a row: parsed quantity times parsed unit price.\<close>

definition js_sum :: "jsnum list \<Rightarrow> jsnum" where
  "js_sum xs = foldl js_add (Fin 0) xs"

definition line_total :: "row \<Rightarrow> jsnum" where
  "line_total r = js_mul (parseFloat (cell r 9)) (parseFloat (cell r 10))"

section \<open>Properties of the reconstruction\<close>

lemmas parse_defs = parseSubmissionsFromRows_def make_submission_def add_row_def make_deduction_def
  split_meter_def new_contractor_def timestampKey_def cell_def js_or_def obj_get_def
  object_prototype_keys_def own_entries_def is_array_index_def is_digit_def digits_value_def
  sort_submissions_def compare_timestamps_def replace_space_colon_def is_white_space_def
  grand_total_def contractor_total_def deduction_total_def parseFloat_str_def parse_unsigned_def
  js_startsWith_def pow10_def exponent_part_def truthy_num_def str_def Let_def


lemma space_in_timestampKey: "32 \<in> set (timestampKey env r)"
  by (simp add: timestampKey_def)

lemma proto_keys_no_space: "k \<in> set object_prototype_keys \<Longrightarrow> 32 \<notin> set k"
  by (auto simp: object_prototype_keys_def str_def)

lemma timestampKey_not_proto: "timestampKey env r \<notin> set object_prototype_keys"
  using proto_keys_no_space space_in_timestampKey by blast

lemma array_index_no_space: "is_array_index k \<Longrightarrow> 32 \<notin> set k"
  by (auto simp: is_array_index_def is_digit_def list_all_iff)

lemma timestampKey_not_index: "\<not> is_array_index (timestampKey env r)"
  using array_index_no_space space_in_timestampKey by blast

lemma obj_get_timestampKey:
  "obj_get acc (timestampKey env r) =
     (case map_of acc (timestampKey env r) of Some v \<Rightarrow> Own v | None \<Rightarrow> Absent)"
  by (simp add: obj_get_def timestampKey_not_proto split: option.splits)

lemma groupedByTimestamp_map_of:
  "distinct (map fst acc) \<Longrightarrow>
   \<exists>g. groupedByTimestamp env acc rows = Inr g \<and> distinct (map fst g)
     \<and> (\<forall>k. map_of g k =
           (case map_of acc k of
              Some old \<Rightarrow> Some (old @ rows_with_key env k rows)
            | None \<Rightarrow> if rows_with_key env k rows = [] then None
                      else Some (rows_with_key env k rows)))"
proof (induction rows arbitrary: acc)
  case Nil
  then show ?case by (auto simp: rows_with_key_def split: option.splits)
next
  case (Cons r rs)
  let ?k = "timestampKey env r"
  show ?case
  proof (cases "map_of acc ?k")
    case None
    let ?acc' = "AList.update ?k [r] acc"
    have d: "distinct (map fst ?acc')" using Cons.prems by (simp add: distinct_update)
    from Cons.IH[OF d] obtain g where g: "groupedByTimestamp env ?acc' rs = Inr g"
      "distinct (map fst g)"
      "\<forall>k. map_of g k = (case map_of ?acc' k of
              Some old \<Rightarrow> Some (old @ rows_with_key env k rs)
            | None \<Rightarrow> if rows_with_key env k rs = [] then None
                      else Some (rows_with_key env k rs))" by blast
    have "groupedByTimestamp env acc (r # rs) = Inr g"
      using None g(1) by (simp add: obj_get_timestampKey)
    moreover have "\<forall>k. map_of g k =
           (case map_of acc k of
              Some old \<Rightarrow> Some (old @ rows_with_key env k (r # rs))
            | None \<Rightarrow> if rows_with_key env k (r # rs) = [] then None
                      else Some (rows_with_key env k (r # rs)))"
      using g(3) None by (auto simp: update_conv' rows_with_key_def split: option.splits)
    ultimately show ?thesis using g(2) by blast
  next
    case (Some grp)
    let ?acc' = "AList.update ?k (grp @ [r]) acc"
    have d: "distinct (map fst ?acc')" using Cons.prems by (simp add: distinct_update)
    from Cons.IH[OF d] obtain g where g: "groupedByTimestamp env ?acc' rs = Inr g"
      "distinct (map fst g)"
      "\<forall>k. map_of g k = (case map_of ?acc' k of
              Some old \<Rightarrow> Some (old @ rows_with_key env k rs)
            | None \<Rightarrow> if rows_with_key env k rs = [] then None
                      else Some (rows_with_key env k rs))" by blast
    have "groupedByTimestamp env acc (r # rs) = Inr g"
      using Some g(1) by (simp add: obj_get_timestampKey)
    moreover have "\<forall>k. map_of g k =
           (case map_of acc k of
              Some old \<Rightarrow> Some (old @ rows_with_key env k (r # rs))
            | None \<Rightarrow> if rows_with_key env k (r # rs) = [] then None
                      else Some (rows_with_key env k (r # rs)))"
      using g(3) Some by (auto simp: update_conv' rows_with_key_def split: option.splits)
    ultimately show ?thesis using g(2) by blast
  qed
qed

lemma own_entries_no_index:
  "\<forall>p\<in>set ob. \<not> is_array_index (fst p) \<Longrightarrow> own_entries ob = ob"
  by (simp add: own_entries_def filter_empty_conv filter_id_conv)

lemma set_own_entries: "set (own_entries ob) = set ob"
  by (auto simp: own_entries_def)

lemma length_own_entries: "length (own_entries ob) = length ob"
  unfolding own_entries_def
  by (simp add: sum_length_filter_compl)





lemma make_deduction_from_row: "make_deduction env i r = Inr d \<Longrightarrow> from_row env d r"
  by (auto simp: from_row_def make_deduction_def Let_def split: sum.splits)

lemma cmap_inv_empty: "cmap_inv env [] []"
  by (simp add: cmap_inv_def)

lemma add_row_inv:
  assumes inv: "cmap_inv env cm pre" and step: "add_row env (k, cm) r = Inr st'"
  shows "cmap_inv env (snd st') (pre @ [r])"
proof -
  let ?name = "contractor_key env r"
  from step obtain d where d: "make_deduction env k r = Inr d"
    by (auto simp: add_row_def Let_def split: sum.splits)
  have fr: "from_row env d r" using d by (rule make_deduction_from_row)
  have dist: "distinct (map fst cm)" using inv by (simp add: cmap_inv_def)
  show ?thesis
  proof (cases "map_of cm ?name")
    case None
    then have notproto: "?name \<notin> set object_prototype_keys"
      using step d by (auto simp: add_row_def Let_def obj_get_def contractor_key_def split: if_splits)
    have nopre: "rows_named env ?name pre = []"
      using inv None by (auto simp: cmap_inv_def rows_named_def filter_empty_conv)
    let ?c = "(new_contractor env r)\<lparr>deductions := [d]\<rparr>"
    have st': "snd st' = AList.update ?name ?c (AList.update ?name (new_contractor env r) cm)"
      using step d None notproto
      by (auto simp: add_row_def Let_def obj_get_def contractor_key_def update_conv' new_contractor_def)
    have mo: "map_of (snd st') = (map_of cm)(?name \<mapsto> ?c)"
      by (simp add: st' update_conv')
    have d': "distinct (map fst (snd st'))" by (simp add: st' distinct_update dist)
    have a: "\<forall>name c. map_of (snd st') name = Some c \<longrightarrow>
           rows_named env name (pre @ [r]) \<noteq> []
           \<and> c\<lparr>deductions := []\<rparr> = new_contractor env (hd (rows_named env name (pre @ [r])))
           \<and> list_all2 (from_row env) (deductions c) (rows_named env name (pre @ [r]))"
    proof (intro allI impI)
      fix name c assume h: "map_of (snd st') name = Some c"
      show "rows_named env name (pre @ [r]) \<noteq> []
           \<and> c\<lparr>deductions := []\<rparr> = new_contractor env (hd (rows_named env name (pre @ [r])))
           \<and> list_all2 (from_row env) (deductions c) (rows_named env name (pre @ [r]))"
      proof (cases "name = ?name")
        case True
        then have "c = ?c" using h mo by simp
        then show ?thesis using True nopre fr
          by (simp add: rows_named_def new_contractor_def)
      next
        case False
        then have "map_of cm name = Some c" using h mo by simp
        moreover have "rows_named env name (pre @ [r]) = rows_named env name pre"
          using False by (simp add: rows_named_def)
        ultimately show ?thesis using inv by (simp add: cmap_inv_def)
      qed
    qed
    have b: "\<forall>r'\<in>set (pre @ [r]). map_of (snd st') (contractor_key env r') \<noteq> None"
      using inv mo by (auto simp: cmap_inv_def)
    show ?thesis using d' a b by (simp add: cmap_inv_def)
  next
    case (Some c0)
    let ?c = "c0\<lparr>deductions := deductions c0 @ [d]\<rparr>"
    have st': "snd st' = AList.update ?name ?c cm"
      using step d Some
      by (auto simp: add_row_def Let_def obj_get_def contractor_key_def)
    have mo: "map_of (snd st') = (map_of cm)(?name \<mapsto> ?c)"
      by (simp add: st' update_conv')
    have d': "distinct (map fst (snd st'))" by (simp add: st' distinct_update dist)
    have c0: "rows_named env ?name pre \<noteq> []"
       "c0\<lparr>deductions := []\<rparr> = new_contractor env (hd (rows_named env ?name pre))"
       "list_all2 (from_row env) (deductions c0) (rows_named env ?name pre)"
      using inv Some by (auto simp: cmap_inv_def)
    have a: "\<forall>name c. map_of (snd st') name = Some c \<longrightarrow>
           rows_named env name (pre @ [r]) \<noteq> []
           \<and> c\<lparr>deductions := []\<rparr> = new_contractor env (hd (rows_named env name (pre @ [r])))
           \<and> list_all2 (from_row env) (deductions c) (rows_named env name (pre @ [r]))"
    proof (intro allI impI)
      fix name c assume h: "map_of (snd st') name = Some c"
      show "rows_named env name (pre @ [r]) \<noteq> []
           \<and> c\<lparr>deductions := []\<rparr> = new_contractor env (hd (rows_named env name (pre @ [r])))
           \<and> list_all2 (from_row env) (deductions c) (rows_named env name (pre @ [r]))"
      proof (cases "name = ?name")
        case True
        then have c: "c = ?c" using h mo by simp
        have rn: "rows_named env name (pre @ [r]) = rows_named env ?name pre @ [r]"
          using True by (simp add: rows_named_def)
        show ?thesis using c0 fr unfolding rn c
          by (simp add: list_all2_appendI)
      next
        case False
        then have "map_of cm name = Some c" using h mo by simp
        moreover have "rows_named env name (pre @ [r]) = rows_named env name pre"
          using False by (simp add: rows_named_def)
        ultimately show ?thesis using inv by (simp add: cmap_inv_def)
      qed
    qed
    have b: "\<forall>r'\<in>set (pre @ [r]). map_of (snd st') (contractor_key env r') \<noteq> None"
      using inv mo by (auto simp: cmap_inv_def)
    show ?thesis using d' a b by (simp add: cmap_inv_def)
  qed
qed

lemma contractorsMap_inv:
  "contractorsMap env st rows = Inr st' \<Longrightarrow> cmap_inv env (snd st) pre
   \<Longrightarrow> cmap_inv env (snd st') (pre @ rows)"
proof (induction rows arbitrary: st pre)
  case Nil
  then show ?case by simp
next
  case (Cons r rs)
  from Cons.prems(1) obtain st1 where s1: "add_row env st r = Inr st1"
    and s2: "contractorsMap env st1 rs = Inr st'"
    by (auto split: sum.splits)
  have "cmap_inv env (snd st1) (pre @ [r])"
    using add_row_inv[of env "snd st" pre "fst st" r st1] Cons.prems(2) s1 by simp
  from Cons.IH[OF s2 this] show ?case by simp
qed





lemma compare_timestamps_le: "compare_timestamps a b \<le> 0 \<longleftrightarrow> timestamp b \<le> timestamp a"
  by (auto simp: compare_timestamps_def)

lemma set_insert_sorted: "set (insert_sorted a bs) = insert a (set bs)"
  by (induction bs) auto

lemma set_sort_submissions: "set (sort_submissions ss) = set ss"
  unfolding sort_submissions_def by (induction ss) (auto simp: set_insert_sorted)

lemma length_insert_sorted: "length (insert_sorted a bs) = Suc (length bs)"
  by (induction bs) auto

lemma length_sort_submissions: "length (sort_submissions ss) = length ss"
  unfolding sort_submissions_def by (induction ss) (auto simp: length_insert_sorted)

lemma sorted_insert_sorted:
  "sorted_wrt (\<lambda>a b. timestamp b \<le> timestamp a) bs
   \<Longrightarrow> sorted_wrt (\<lambda>a b. timestamp b \<le> timestamp a) (insert_sorted a bs)"
  by (induction bs) (auto simp: set_insert_sorted compare_timestamps_le)

lemma sorted_sort_submissions:
  "sorted_wrt (\<lambda>a b. timestamp b \<le> timestamp a) (sort_submissions ss)"
  unfolding sort_submissions_def by (induction ss) (auto simp: sorted_insert_sorted)

lemma distinct_insert_sorted:
  "distinct (map timestamp (insert_sorted a bs))
   \<longleftrightarrow> timestamp a \<notin> timestamp ` set bs \<and> distinct (map timestamp bs)"
  by (induction bs) (auto simp: set_insert_sorted)

lemma distinct_sort_submissions:
  "distinct (map timestamp (sort_submissions ss)) \<longleftrightarrow> distinct (map timestamp ss)"
  unfolding sort_submissions_def
  by (induction ss) (auto simp: distinct_insert_sorted set_sort_submissions[unfolded sort_submissions_def])

lemma sorted_distinct_strict:
  "sorted_wrt (\<lambda>a b. timestamp b \<le> timestamp a) ss \<Longrightarrow> distinct (map timestamp ss)
   \<Longrightarrow> sorted_wrt (\<lambda>a b. timestamp b < timestamp a) ss"
proof (induction ss)
  case Nil
  then show ?case by simp
next
  case (Cons a ss)
  have "\<forall>x\<in>set ss. timestamp x < timestamp a"
  proof
    fix x assume x: "x \<in> set ss"
    then have "timestamp x \<le> timestamp a" using Cons.prems(1) by simp
    moreover have "timestamp x \<noteq> timestamp a" using Cons.prems(2) x by (metis distinct.simps(2) image_eqI list.simps(9) set_map)
    ultimately show "timestamp x < timestamp a" by simp
  qed
  then show ?case using Cons by simp
qed

lemma make_submission_timestamp:
  "make_submission env k e = Inr (k', s) \<Longrightarrow> timestamp s = fst e"
  by (auto simp: make_submission_def Let_def split: sum.splits)

lemma make_submissions_entries:
  "make_submissions env k entries = Inr ss
   \<Longrightarrow> list_all2 (\<lambda>s e. \<exists>k k'. make_submission env k e = Inr (k', s)) ss entries"
proof (induction entries arbitrary: k ss)
  case Nil
  then show ?case by simp
next
  case (Cons e es)
  then show ?case by (fastforce split: sum.splits prod.splits)
qed

lemma make_submissions_timestamps:
  "make_submissions env k entries = Inr ss \<Longrightarrow> map timestamp ss = map fst entries"
proof (induction entries arbitrary: k ss)
  case Nil
  then show ?case by simp
next
  case (Cons e es)
  then show ?case by (fastforce split: sum.splits prod.splits dest: make_submission_timestamp)
qed

lemma groups_of_rows:
  "\<exists>g. groupedByTimestamp env [] rows = Inr g \<and> distinct (map fst g)
     \<and> (\<forall>k. map_of g k = (if rows_with_key env k rows = [] then None
                               else Some (rows_with_key env k rows)))"
  using groupedByTimestamp_map_of[of "[]" env rows] by auto

lemma group_keys_are_keys:
  assumes "groupedByTimestamp env [] rows = Inr g" and "e \<in> set g"
  shows "fst e \<in> timestampKey env ` set rows" and "snd e = rows_with_key env (fst e) rows"
proof -
  obtain g' where g': "groupedByTimestamp env [] rows = Inr g'" "distinct (map fst g')"
    "\<And>k. map_of g' k = (if rows_with_key env k rows = [] then None
                          else Some (rows_with_key env k rows))"
    using groups_of_rows[of env rows] by blast
  have gg: "g' = g" using assms(1) g'(1) by simp
  have "(fst e, snd e) \<in> set g" using assms(2) by simp
  then have "map_of g (fst e) = Some (snd e)" using g'(2) gg by (simp only: map_of_eq_Some_iff)
  then have *: "rows_with_key env (fst e) rows \<noteq> []" "snd e = rows_with_key env (fst e) rows"
    using g'(3)[of "fst e"] gg by (auto split: if_splits)
  show "snd e = rows_with_key env (fst e) rows" by (rule *(2))
  from *(1) obtain r where "r \<in> set rows" "timestampKey env r = fst e"
    by (auto simp: rows_with_key_def filter_empty_conv)
  then show "fst e \<in> timestampKey env ` set rows" by (metis image_eqI)
qed

lemma own_entries_groups:
  assumes "groupedByTimestamp env [] rows = Inr g"
  shows "own_entries g = g"
proof (rule own_entries_no_index, rule ballI)
  fix p assume "p \<in> set g"
  then have "fst p \<in> timestampKey env ` set rows" using assms by (rule group_keys_are_keys(1)[rotated])
  then show "\<not> is_array_index (fst p)" using timestampKey_not_index by auto
qed

lemma parse_structure:
  assumes "parseSubmissionsFromRows env rows = Inr ss"
  obtains g ss0 where "groupedByTimestamp env [] rows = Inr g" "distinct (map fst g)"
    "make_submissions env 0 g = Inr ss0" "ss = sort_submissions ss0"
proof -
  obtain g where g: "groupedByTimestamp env [] rows = Inr g" "distinct (map fst g)"
    using groups_of_rows[of env rows] by blast
  have oe: "own_entries g = g" using g(1) by (rule own_entries_groups)
  from assms g(1) oe obtain ss0 where "make_submissions env 0 g = Inr ss0" "ss = sort_submissions ss0"
    by (auto simp: parseSubmissionsFromRows_def split: sum.splits)
  with g that show thesis by blast
qed

text \<open>
  Claim C6. The reports that the reconstruction returns are in descending order of their
  timestamp string \<open>date time\<close> under the lexicographic comparison of strings: of any two
  reports of the output, the one with the greater timestamp comes first.
\<close>

theorem reports_sorted_descending:
  assumes "parseSubmissionsFromRows env rows = Inr ss"
  shows "sorted_wrt (\<lambda>a b. timestamp b < timestamp a) ss"
proof -
  from assms obtain g ss0 where g: "groupedByTimestamp env [] rows = Inr g" "distinct (map fst g)"
    "make_submissions env 0 g = Inr ss0" "ss = sort_submissions ss0"
    by (rule parse_structure)
  have "distinct (map timestamp ss0)" using make_submissions_timestamps[OF g(3)] g(2) by simp
  then have "distinct (map timestamp ss)" using g(4) by (simp add: distinct_sort_submissions)
  moreover have "sorted_wrt (\<lambda>a b. timestamp b \<le> timestamp a) ss"
    using g(4) by (simp add: sorted_sort_submissions)
  ultimately show ?thesis by (rule sorted_distinct_strict[rotated])
qed



theorem reports_sorted_descending_witness:
  "\<exists>ss. parseSubmissionsFromRows example_env [may_row, june_row] = Inr ss
     \<and> map timestamp ss = [str ''2024-06-01 10:00'', str ''2024-05-01 09:00'']
     \<and> sorted_wrt (\<lambda>a b. timestamp b < timestamp a) ss"
proof -
  have "map_sum id (map timestamp) (parseSubmissionsFromRows example_env [may_row, june_row])
          = Inr [str ''2024-06-01 10:00'', str ''2024-05-01 09:00'']"
    by (simp add: parse_defs may_row_def june_row_def)
  then obtain ss where ss: "parseSubmissionsFromRows example_env [may_row, june_row] = Inr ss"
    and ts: "map timestamp ss = [str ''2024-06-01 10:00'', str ''2024-05-01 09:00'']"
    by (cases "parseSubmissionsFromRows example_env [may_row, june_row]") auto
  have "sorted_wrt (\<lambda>a b. timestamp b < timestamp a) ss"
    using ss by (rule reports_sorted_descending)
  with ss ts show ?thesis by (intro exI[of _ ss] conjI)
qed

lemma make_submission_contractors:
  assumes "make_submission env k e = Inr (k', s)"
  shows "\<exists>cm. cmap_inv env cm (snd e) \<and> contractors s = map snd (own_entries cm)"
proof -
  from assms obtain st where st: "contractorsMap env (k, []) (snd e) = Inr st"
    and s: "contractors s = map snd (own_entries (snd st))"
    by (auto simp: make_submission_def Let_def split: sum.splits)
  have "cmap_inv env (snd st) ([] @ snd e)"
    using st by (rule contractorsMap_inv) (simp add: cmap_inv_empty)
  then show ?thesis using s by auto
qed

lemma cmap_inv_name:
  assumes "cmap_inv env cm grp" and "map_of cm name = Some c"
  shows "to_string env (contractorName c) = name"
    and "rows_named env name grp \<noteq> []"
    and "notes c = js_or (cell (hd (rows_named env name grp)) 13) (VString [])"
    and "list_all2 (from_row env) (deductions c) (rows_named env name grp)"
proof -
  from assms have ne: "rows_named env name grp \<noteq> []"
    and nc: "c\<lparr>deductions := []\<rparr> = new_contractor env (hd (rows_named env name grp))"
    and la: "list_all2 (from_row env) (deductions c) (rows_named env name grp)"
    by (auto simp: cmap_inv_def)
  show "rows_named env name grp \<noteq> []" by (rule ne)
  show "list_all2 (from_row env) (deductions c) (rows_named env name grp)" by (rule la)
  have "hd (rows_named env name grp) \<in> set (rows_named env name grp)" using ne by simp
  then have key: "contractor_key env (hd (rows_named env name grp)) = name"
    by (simp add: rows_named_def)
  have "contractorName (c\<lparr>deductions := []\<rparr>) = cell (hd (rows_named env name grp)) 4"
    unfolding nc by (simp add: new_contractor_def)
  then show "to_string env (contractorName c) = name"
    using key by (simp add: contractor_key_def)
  have "notes (c\<lparr>deductions := []\<rparr>) = js_or (cell (hd (rows_named env name grp)) 13) (VString [])"
    unfolding nc by (simp add: new_contractor_def)
  then show "notes c = js_or (cell (hd (rows_named env name grp)) 13) (VString [])" by simp
qed

lemma report_of_group:
  assumes "parseSubmissionsFromRows env rows = Inr ss" and "s \<in> set ss"
  shows "\<exists>k k'. make_submission env k (timestamp s, rows_with_key env (timestamp s) rows) = Inr (k', s)"
proof -
  from assms(1) obtain g ss0 where g: "groupedByTimestamp env [] rows = Inr g" "distinct (map fst g)"
    "make_submissions env 0 g = Inr ss0" "ss = sort_submissions ss0"
    by (rule parse_structure)
  have "s \<in> set ss0" using assms(2) g(4) by (simp add: set_sort_submissions)
  then obtain i where i: "i < length ss0" "ss0 ! i = s" by (auto simp: in_set_conv_nth)
  note la = make_submissions_entries[OF g(3)]
  have len: "length ss0 = length g" using la by (rule list_all2_lengthD)
  have "\<exists>k k'. make_submission env k (g ! i) = Inr (k', ss0 ! i)"
    using la i(1) by (rule list_all2_nthD)
  then obtain k k' where mk: "make_submission env k (g ! i) = Inr (k', s)" using i(2) by auto
  define e where "e = g ! i"
  have e: "e \<in> set g" "make_submission env k e = Inr (k', s)"
    using mk i(1) len by (simp_all add: e_def)
  have ts: "timestamp s = fst e" using e(2) by (rule make_submission_timestamp)
  have "snd e = rows_with_key env (fst e) rows" using g(1) e(1) by (rule group_keys_are_keys(2))
  then have "e = (timestamp s, rows_with_key env (timestamp s) rows)" using ts by (cases e) simp
  then show ?thesis using e(2) by auto
qed

text \<open>
  Sub-grouping, for the calls that return. Within the rows that share a key \<open>date time\<close>,
  the rows are sub-grouped into contractors by the property key that their contractor-name
  cell converts to: a contractor of a report holds the deductions of exactly the rows of
  the group with its key, in their order, no two contractors of a report have the same
  key, and every row of the group belongs to a contractor. The notes of a contractor are
  the notes cell of the first of its rows (an empty or absent cell reads as the empty
  string); the notes cells of its later rows are not looked at.
\<close>

lemma contractor_notes_from_first_row:
  assumes "parseSubmissionsFromRows env rows = Inr ss"
    and "s \<in> set ss" and "c \<in> set (contractors s)"
  shows "rows_named env (to_string env (contractorName c)) (rows_with_key env (timestamp s) rows) \<noteq> []
    \<and> notes c = js_or (cell (hd (rows_named env (to_string env (contractorName c))
                                    (rows_with_key env (timestamp s) rows))) 13) (VString [])
    \<and> list_all2 (from_row env) (deductions c)
         (rows_named env (to_string env (contractorName c)) (rows_with_key env (timestamp s) rows))
    \<and> (\<forall>c'\<in>set (contractors s).
          to_string env (contractorName c') = to_string env (contractorName c) \<longrightarrow> c' = c)
    \<and> (\<forall>r\<in>set (rows_with_key env (timestamp s) rows).
          \<exists>c'\<in>set (contractors s). to_string env (contractorName c') = contractor_key env r)"
proof -
  let ?grp = "rows_with_key env (timestamp s) rows"
  from report_of_group[OF assms(1,2)] obtain k k' where
    ms: "make_submission env k (timestamp s, ?grp) = Inr (k', s)" by blast
  from make_submission_contractors[OF ms] obtain cm where
    inv: "cmap_inv env cm ?grp" and cs: "contractors s = map snd (own_entries cm)" by auto
  have dist: "distinct (map fst cm)" using inv by (simp add: cmap_inv_def)
  have mem: "x \<in> set (contractors s) \<longleftrightarrow> (\<exists>name. map_of cm name = Some x)" for x
  proof -
    have "x \<in> set (contractors s) \<longleftrightarrow> x \<in> snd ` set cm" by (simp add: cs set_own_entries)
    also have "\<dots> \<longleftrightarrow> (\<exists>name. (name, x) \<in> set cm)" by force
    also have "\<dots> \<longleftrightarrow> (\<exists>name. map_of cm name = Some x)" using dist by simp
    finally show ?thesis .
  qed
  from assms(3) obtain name where name: "map_of cm name = Some c" using mem by blast
  note facts = cmap_inv_name[OF inv name]
  have uniq: "\<forall>c'\<in>set (contractors s).
          to_string env (contractorName c') = to_string env (contractorName c) \<longrightarrow> c' = c"
  proof (intro ballI impI)
    fix c' assume c': "c' \<in> set (contractors s)"
      and eq: "to_string env (contractorName c') = to_string env (contractorName c)"
    from c' obtain name' where name': "map_of cm name' = Some c'" using mem by blast
    have "name' = name" using cmap_inv_name(1)[OF inv name'] facts(1) eq by simp
    then show "c' = c" using name name' by simp
  qed
  have cover: "\<forall>r\<in>set ?grp. \<exists>c'\<in>set (contractors s).
      to_string env (contractorName c') = contractor_key env r"
  proof
    fix r assume "r \<in> set ?grp"
    then obtain c' where c': "map_of cm (contractor_key env r) = Some c'"
      using inv by (auto simp: cmap_inv_def)
    have "c' \<in> set (contractors s)" using c' mem by blast
    moreover have "to_string env (contractorName c') = contractor_key env r"
      using cmap_inv_name(1)[OF inv c'] .
    ultimately show "\<exists>c'\<in>set (contractors s). to_string env (contractorName c') = contractor_key env r"
      by blast
  qed
  show ?thesis using facts uniq cover by simp
qed

lemma contractor_notes_from_first_row_witness:
  "\<exists>ss s c. parseSubmissionsFromRows example_env [first_notes_row, second_notes_row] = Inr ss
     \<and> s \<in> set ss \<and> c \<in> set (contractors s)
     \<and> cell first_notes_row 13 \<noteq> cell second_notes_row 13
     \<and> rows_named example_env (to_string example_env (contractorName c))
          (rows_with_key example_env (timestamp s) [first_notes_row, second_notes_row])
         = [first_notes_row, second_notes_row]
     \<and> notes c = VString (str ''first'')
     \<and> list_all2 (from_row example_env) (deductions c) [first_notes_row, second_notes_row]"
proof -
  let ?rows = "[first_notes_row, second_notes_row]"
  have ev: "map_sum id (map (\<lambda>s. (timestamp s, map contractorName (contractors s))))
          (parseSubmissionsFromRows example_env ?rows)
        = Inr [(str ''2024-06-01 10:00'', [VString (str ''A'')])]"
    by (simp add: parse_defs first_notes_row_def second_notes_row_def)
  then obtain ss where ss: "parseSubmissionsFromRows example_env ?rows = Inr ss"
    and m: "map (\<lambda>s. (timestamp s, map contractorName (contractors s))) ss
            = [(str ''2024-06-01 10:00'', [VString (str ''A'')])]"
    by (cases "parseSubmissionsFromRows example_env ?rows") auto
  from m obtain s where s: "ss = [s]" "timestamp s = str ''2024-06-01 10:00''"
    "map contractorName (contractors s) = [VString (str ''A'')]" by auto
  from s(3) obtain c where c: "contractors s = [c]" "contractorName c = VString (str ''A'')" by auto
  have mine: "rows_named example_env (to_string example_env (contractorName c))
          (rows_with_key example_env (timestamp s) ?rows) = ?rows"
    by (simp add: c(2) s(2) rows_named_def rows_with_key_def contractor_key_def timestampKey_def
        cell_def first_notes_row_def second_notes_row_def str_def)
  have diff: "cell first_notes_row 13 \<noteq> cell second_notes_row 13"
    by (simp add: cell_def first_notes_row_def second_notes_row_def str_def)
  have "s \<in> set ss" "c \<in> set (contractors s)" using s(1) c(1) by simp_all
  note c4 = contractor_notes_from_first_row[OF ss this]
  have n: "notes c = VString (str ''first'')"
    using c4 unfolding mine by (simp add: js_or_def cell_def first_notes_row_def str_def)
  have l: "list_all2 (from_row example_env) (deductions c) ?rows"
    using c4 unfolding mine by simp
  show ?thesis using ss \<open>s \<in> set ss\<close> \<open>c \<in> set (contractors s)\<close> diff mine n l
    by (intro exI[of _ ss] exI[of _ s] exI[of _ c] conjI)
qed

text \<open>
  Claim C4 fails on the code for rows whose contractor is named \<open>constructor\<close>: the
  dictionary of the contractors of a report is a plain object, the lookup of that name
  finds the inherited property, no contractor is created for the rows, and the push of
  the first deduction throws a \<open>TypeError\<close>, so that the rows are not sub-grouped and no
  notes are returned. One such row (here named \<open>toString\<close>) in the report of another day
  makes the whole call throw, also for the report whose two rows are named \<open>A\<close>; without
  it these two rows give one contractor with two deductions and the notes of the first
  row. The keys of the dictionary are what the cells convert to: a row whose contractor
  cell is absent joins the contractor of a row whose cell is the string \<open>undefined\<close>.
\<close>

theorem subgrouping_throws_for_inherited_name:
  "parseSubmissionsFromRows env [inherited_name_first_row, inherited_name_second_row] = Inl TypeError
   \<and> parseSubmissionsFromRows env [first_notes_row, second_notes_row, inherited_name_other_day_row]
     = Inl TypeError
   \<and> map_sum id (map (\<lambda>s. map (\<lambda>c. (contractorName c, notes c, length (deductions c)))
                              (contractors s)))
       (parseSubmissionsFromRows env [first_notes_row, second_notes_row])
     = Inr [[(VString (str ''A''), VString (str ''first''), 2)]]
   \<and> map_sum id (map (\<lambda>s. map (\<lambda>c. (contractorName c, notes c, length (deductions c)))
                              (contractors s)))
       (parseSubmissionsFromRows env [undefined_name_row, absent_name_row])
     = Inr [[(VString (str ''undefined''), VString (str ''first''), 2)]]"
  by (simp add: parse_defs inherited_name_first_row_def inherited_name_second_row_def
      inherited_name_other_day_row_def first_notes_row_def second_notes_row_def
      undefined_name_row_def absent_name_row_def)

lemma report_rows_eq: "report_rows env rows s = rows_with_key env (timestamp s) rows"
proof -
  obtain g where g: "groupedByTimestamp env [] rows = Inr g"
    "\<And>k. map_of g k = (if rows_with_key env k rows = [] then None
                          else Some (rows_with_key env k rows))"
    using groups_of_rows[of env rows] by blast
  show ?thesis by (simp add: report_rows_def g)
qed

lemma report_timestamps:
  assumes "parseSubmissionsFromRows env rows = Inr ss"
  shows "timestamp ` set ss = timestampKey env ` set rows" and "distinct (map timestamp ss)"
proof -
  obtain g where g: "groupedByTimestamp env [] rows = Inr g" "distinct (map fst g)"
    "\<And>k. map_of g k = (if rows_with_key env k rows = [] then None
                          else Some (rows_with_key env k rows))"
    using groups_of_rows[of env rows] by blast
  from assms obtain g' ss0 where g': "groupedByTimestamp env [] rows = Inr g'"
    "make_submissions env 0 g' = Inr ss0" "ss = sort_submissions ss0"
    by (rule parse_structure)
  have gg: "g' = g" using g(1) g'(1) by simp
  have ts: "map timestamp ss0 = map fst g" using make_submissions_timestamps[OF g'(2)] gg by simp
  have "timestamp ` set ss = set (map timestamp ss0)" by (simp add: g'(3) set_sort_submissions)
  also have "\<dots> = fst ` set g" by (simp add: ts)
  also have "\<dots> = dom (map_of g)" by (simp add: dom_map_of_conv_image_fst)
  also have "\<dots> = timestampKey env ` set rows"
  proof (rule set_eqI)
    fix k
    have "k \<in> dom (map_of g) \<longleftrightarrow> rows_with_key env k rows \<noteq> []"
      by (simp add: dom_def g(3))
    also have "\<dots> \<longleftrightarrow> (\<exists>r\<in>set rows. timestampKey env r = k)"
      by (simp add: rows_with_key_def filter_empty_conv)
    also have "\<dots> \<longleftrightarrow> k \<in> timestampKey env ` set rows" by (auto simp: image_iff)
    finally show "k \<in> dom (map_of g) \<longleftrightarrow> k \<in> timestampKey env ` set rows" .
  qed
  finally show "timestamp ` set ss = timestampKey env ` set rows" .
  have "distinct (map timestamp ss0)" using ts g(2) by simp
  then show "distinct (map timestamp ss)" by (simp add: g'(3) distinct_sort_submissions)
qed

lemma same_report_iff:
  assumes "parseSubmissionsFromRows env rows = Inr ss" and "r1 \<in> set rows" and "r2 \<in> set rows"
  shows "(\<exists>s\<in>set ss. r1 \<in> set (report_rows env rows s) \<and> r2 \<in> set (report_rows env rows s))
         \<longleftrightarrow> timestampKey env r1 = timestampKey env r2"
proof
  assume "\<exists>s\<in>set ss. r1 \<in> set (report_rows env rows s) \<and> r2 \<in> set (report_rows env rows s)"
  then show "timestampKey env r1 = timestampKey env r2"
    by (auto simp: report_rows_eq rows_with_key_def)
next
  assume eq: "timestampKey env r1 = timestampKey env r2"
  have "timestampKey env r1 \<in> timestamp ` set ss"
    using report_timestamps(1)[OF assms(1)] assms(2) by blast
  then obtain s where s: "s \<in> set ss" "timestamp s = timestampKey env r1" by (auto simp: image_iff)
  have "r1 \<in> set (report_rows env rows s)" "r2 \<in> set (report_rows env rows s)"
    using s(2) eq assms(2,3) by (simp_all add: report_rows_eq rows_with_key_def)
  with s(1) show "\<exists>s\<in>set ss. r1 \<in> set (report_rows env rows s) \<and> r2 \<in> set (report_rows env rows s)"
    by blast
qed

lemma joined_key_eq_iff:
  fixes d1 d2 t1 t2 :: jsstring
  assumes "32 \<notin> set d1" and "32 \<notin> set d2"
  shows "d1 @ [32] @ t1 = d2 @ [32] @ t2 \<longleftrightarrow> d1 = d2 \<and> t1 = t2"
proof
  assume eq: "d1 @ [32] @ t1 = d2 @ [32] @ t2"
  have n1: "\<And>x. x \<in> set d1 \<Longrightarrow> x \<noteq> 32" and n2: "\<And>x. x \<in> set d2 \<Longrightarrow> x \<noteq> 32"
    using assms by auto
  have "takeWhile (\<lambda>c. c \<noteq> 32) (d1 @ [32] @ t1) = d1"
    using n1 by (simp add: takeWhile_append2)
  moreover have "takeWhile (\<lambda>c. c \<noteq> 32) (d2 @ [32] @ t2) = d2"
    using n2 by (simp add: takeWhile_append2)
  ultimately have "d1 = d2" using eq by simp
  then show "d1 = d2 \<and> t1 = t2" using eq by simp
qed simp

lemma cmap_inv_length:
  assumes "cmap_inv env cm grp"
  shows "length cm = card (contractor_key env ` set grp)"
proof -
  have dist: "distinct (map fst cm)" using assms by (simp add: cmap_inv_def)
  have "dom (map_of cm) = contractor_key env ` set grp"
  proof (rule set_eqI)
    fix name
    show "name \<in> dom (map_of cm) \<longleftrightarrow> name \<in> contractor_key env ` set grp"
    proof
      assume "name \<in> dom (map_of cm)"
      then obtain c where "map_of cm name = Some c" by auto
      then have "rows_named env name grp \<noteq> []" using assms by (simp add: cmap_inv_def)
      then obtain r where "r \<in> set grp" "contractor_key env r = name"
        by (auto simp: rows_named_def filter_empty_conv)
      then show "name \<in> contractor_key env ` set grp" by (metis image_eqI)
    next
      assume "name \<in> contractor_key env ` set grp"
      then show "name \<in> dom (map_of cm)" using assms by (auto simp: cmap_inv_def)
    qed
  qed
  then have "card (contractor_key env ` set grp) = card (fst ` set cm)"
    by (simp add: dom_map_of_conv_image_fst)
  also have "\<dots> = card (set (map fst cm))" by simp
  also have "\<dots> = length (map fst cm)" using dist by (rule distinct_card)
  finally show ?thesis by simp
qed

lemma two_rows_one_report:
  assumes p: "parseSubmissionsFromRows env [r1, r2] = Inr ss"
    and k: "timestampKey env r1 = timestampKey env r2"
    and n: "contractor_key env r1 \<noteq> contractor_key env r2"
  shows "length ss = 1 \<and> length (contractors (hd ss)) = 2"
proof -
  have "timestamp ` set ss = {timestampKey env r1}"
    using report_timestamps(1)[OF p] k by simp
  moreover have "distinct (map timestamp ss)" by (rule report_timestamps(2)[OF p])
  ultimately have "length (map timestamp ss) = card {timestampKey env r1}"
    by (metis distinct_card set_map)
  then have len: "length ss = 1" by simp
  then obtain s where s: "ss = [s]" by (cases ss) auto
  have "s \<in> set ss" using s by simp
  from report_of_group[OF p this] obtain i i' where
    ms: "make_submission env i (timestamp s, rows_with_key env (timestamp s) [r1, r2]) = Inr (i', s)"
    by blast
  have "timestamp s \<in> {timestampKey env r1}"
    using \<open>timestamp ` set ss = {timestampKey env r1}\<close> s by auto
  then have grp: "rows_with_key env (timestamp s) [r1, r2] = [r1, r2]"
    using k by (simp add: rows_with_key_def)
  from make_submission_contractors[OF ms] obtain cm where
    inv: "cmap_inv env cm [r1, r2]" and cs: "contractors s = map snd (own_entries cm)"
    unfolding grp by auto
  have "length (contractors s) = length cm" by (simp add: cs length_own_entries)
  also have "\<dots> = card (contractor_key env ` set [r1, r2])" using inv by (rule cmap_inv_length)
  also have "\<dots> = 2" using n by simp
  finally show ?thesis using len s by simp
qed

text \<open>
  Claim C3, amended. Two rows of the input are placed in the same report exactly when the
  strings \<open>date time\<close>, made of their date cell, one space and their time cell, are
  identical; every report is built from the rows of its group. When neither date cell
  contains a space, this is the case exactly when the two date cells read as the same
  string and the two time cells read as the same string. If the input consists of two rows
  with one key and different contractor names and the reconstruction returns, it returns a
  single report with two contractors.
\<close>

theorem report_boundary_is_joined_key:
  assumes "parseSubmissionsFromRows env rows = Inr ss" and "r1 \<in> set rows" and "r2 \<in> set rows"
  shows "((\<exists>s\<in>set ss. r1 \<in> set (report_rows env rows s) \<and> r2 \<in> set (report_rows env rows s))
           \<longleftrightarrow> to_string env (cell r1 0) @ [32] @ to_string env (cell r1 1)
               = to_string env (cell r2 0) @ [32] @ to_string env (cell r2 1))
     \<and> (\<forall>s\<in>set ss. \<exists>k k'.
           make_submission env k (timestamp s, report_rows env rows s) = Inr (k', s))
     \<and> (32 \<notin> set (to_string env (cell r1 0)) \<and> 32 \<notin> set (to_string env (cell r2 0)) \<longrightarrow>
          ((\<exists>s\<in>set ss. r1 \<in> set (report_rows env rows s) \<and> r2 \<in> set (report_rows env rows s))
           \<longleftrightarrow> to_string env (cell r1 0) = to_string env (cell r2 0)
               \<and> to_string env (cell r1 1) = to_string env (cell r2 1)))
     \<and> (rows = [r1, r2] \<and> timestampKey env r1 = timestampKey env r2
          \<and> to_string env (cell r1 4) \<noteq> to_string env (cell r2 4) \<longrightarrow>
          length ss = 1 \<and> length (contractors (hd ss)) = 2)"
proof -
  note iff = same_report_iff[OF assms]
  have a: "(\<exists>s\<in>set ss. r1 \<in> set (report_rows env rows s) \<and> r2 \<in> set (report_rows env rows s))
           \<longleftrightarrow> to_string env (cell r1 0) @ [32] @ to_string env (cell r1 1)
               = to_string env (cell r2 0) @ [32] @ to_string env (cell r2 1)"
    using iff by (simp add: timestampKey_def)
  have b: "\<forall>s\<in>set ss. \<exists>k k'.
           make_submission env k (timestamp s, report_rows env rows s) = Inr (k', s)"
    using report_of_group[OF assms(1)] by (simp add: report_rows_eq)
  have c: "32 \<notin> set (to_string env (cell r1 0)) \<and> 32 \<notin> set (to_string env (cell r2 0)) \<longrightarrow>
          ((\<exists>s\<in>set ss. r1 \<in> set (report_rows env rows s) \<and> r2 \<in> set (report_rows env rows s))
           \<longleftrightarrow> to_string env (cell r1 0) = to_string env (cell r2 0)
               \<and> to_string env (cell r1 1) = to_string env (cell r2 1))"
    unfolding a using joined_key_eq_iff by blast
  have d: "rows = [r1, r2] \<and> timestampKey env r1 = timestampKey env r2
          \<and> to_string env (cell r1 4) \<noteq> to_string env (cell r2 4) \<longrightarrow>
          length ss = 1 \<and> length (contractors (hd ss)) = 2"
    using two_rows_one_report[of env r1 r2 ss] assms(1) by (auto simp: contractor_key_def)
  show ?thesis using a b c d by blast
qed

text \<open>
  Claim C3 as stated fails: a row with date \<open>2024-06-01 10\<close> and time \<open>00\<close> and a row with
  date \<open>2024-06-01\<close> and time \<open>10 00\<close> differ in both cells and are placed in one group,
  hence in one report.
\<close>

theorem same_report_with_different_cells:
  "cell split_date_row 0 \<noteq> cell split_time_row 0
   \<and> cell split_date_row 1 \<noteq> cell split_time_row 1
   \<and> groupedByTimestamp example_env [] [split_date_row, split_time_row]
       = Inr [(str ''2024-06-01 10 00'', [split_date_row, split_time_row])]
   \<and> map_sum id (map timestamp) (parseSubmissionsFromRows example_env [split_date_row, split_time_row])
       = Inr [str ''2024-06-01 10 00'']"
  by (simp add: parse_defs split_date_row_def split_time_row_def)

theorem report_boundary_is_joined_key_witness:
  "\<exists>ss. parseSubmissionsFromRows example_env [first_notes_row, other_contractor_row] = Inr ss
     \<and> first_notes_row \<in> set [first_notes_row, other_contractor_row]
     \<and> other_contractor_row \<in> set [first_notes_row, other_contractor_row]
     \<and> 32 \<notin> set (to_string example_env (cell first_notes_row 0))
     \<and> 32 \<notin> set (to_string example_env (cell other_contractor_row 0))
     \<and> timestampKey example_env first_notes_row = timestampKey example_env other_contractor_row
     \<and> to_string example_env (cell first_notes_row 4)
         \<noteq> to_string example_env (cell other_contractor_row 4)
     \<and> (\<exists>s\<in>set ss.
           first_notes_row \<in> set (report_rows example_env [first_notes_row, other_contractor_row] s)
           \<and> other_contractor_row
               \<in> set (report_rows example_env [first_notes_row, other_contractor_row] s))
     \<and> length ss = 1 \<and> length (contractors (hd ss)) = 2"
proof -
  let ?rows = "[first_notes_row, other_contractor_row]"
  have "map_sum id length (parseSubmissionsFromRows example_env ?rows) = Inr 1"
    by (simp add: parse_defs first_notes_row_def other_contractor_row_def)
  then obtain ss where ss: "parseSubmissionsFromRows example_env ?rows = Inr ss"
    by (cases "parseSubmissionsFromRows example_env ?rows") auto
  have m1: "first_notes_row \<in> set ?rows" and m2: "other_contractor_row \<in> set ?rows" by simp_all
  have sp: "32 \<notin> set (to_string example_env (cell first_notes_row 0))"
    "32 \<notin> set (to_string example_env (cell other_contractor_row 0))"
    by (simp_all add: cell_def first_notes_row_def other_contractor_row_def str_def)
  have key: "timestampKey example_env first_notes_row = timestampKey example_env other_contractor_row"
    by (simp add: timestampKey_def cell_def first_notes_row_def other_contractor_row_def)
  have nm: "to_string example_env (cell first_notes_row 4)
         \<noteq> to_string example_env (cell other_contractor_row 4)"
    by (simp add: cell_def first_notes_row_def other_contractor_row_def str_def)
  note c3 = report_boundary_is_joined_key[OF ss m1 m2]
  have same: "\<exists>s\<in>set ss. first_notes_row \<in> set (report_rows example_env ?rows s)
           \<and> other_contractor_row \<in> set (report_rows example_env ?rows s)"
    using c3 key by (simp add: timestampKey_def)
  have two: "length ss = 1 \<and> length (contractors (hd ss)) = 2"
    using c3 key nm by blast
  show ?thesis using ss m1 m2 sp key nm same two
    by (intro exI[of _ ss] conjI) simp_all
qed

text \<open>
  Claim C5 fails on the code. The meter-equivalent cell is split at every space and only
  the first two pieces are kept, so the cell \<open>12.5\<close> followed by the unit of two words parses
  to the value 12.5 and to the first word of the unit, not to the unit. An empty or absent
  cell parses to an unset value and an empty unit.
\<close>

theorem meter_unit_cut_at_second_space:
  "map_sum id (\<lambda>d. (meterEquivalentValue d, meterEquivalentUnit d))
     (make_deduction env k (meter_row (VString (str ''12.5 '' @ square_metre))))
     = Inr (NumF (Fin (25 / 2)), [1605, 1578, 1585])
   \<and> [1605, 1578, 1585] \<noteq> square_metre
   \<and> map_sum id (\<lambda>d. (meterEquivalentValue d, meterEquivalentUnit d))
       (make_deduction env k (meter_row (VString []))) = Inr (EmptyF, [])
   \<and> map_sum id (\<lambda>d. (meterEquivalentValue d, meterEquivalentUnit d))
       (make_deduction env k (take 8 (meter_row VUndefined))) = Inr (EmptyF, [])"
  by (simp add: parse_defs meter_row_def square_metre_def)

text \<open>The flatten step writes the value, a space and the whole unit into the cell.\<close>

lemma flatten_writes_unit_with_space:
  assumes "number_to_string env (Fin (25 / 2)) = str ''12.5''"
    and "meterEquivalentValue d = NumF (Fin (25 / 2))" and "meterEquivalentUnit d = square_metre"
  shows "meterEquivalent env d = str ''12.5 '' @ square_metre"
  using assms by (simp add: meterEquivalent_def truthy_num_def str_def)

text \<open>
  Claim C2 fails on the code. For a report of two rows, one with quantity 2 and unit price 3
  and one whose quantity cell is \<open>abc\<close>, the reconstructed grand total is NaN, where the
  sum that counts the non-numeric cell as 0 is 6.
\<close>

theorem grand_total_nan_for_non_numeric_cell:
  "map_sum id (map grandTotal)
     (parseSubmissionsFromRows env [meter_row (VString []), non_numeric_row]) = Inr [NaN]
   \<and> spec_grand_total [meter_row (VString []), non_numeric_row] = Fin 6"
  by (simp add: parse_defs meter_row_def non_numeric_row_def spec_grand_total_def
      spec_line_total_def nan_as_zero_def)

lemma js_add_zero_left: "js_add (Fin 0) x = x"
  by (cases x) simp_all

lemma make_deduction_text_cell:
  assumes "cell r 8 = VString m"
  shows "\<exists>e. make_deduction env k r = Inr e
           \<and> contractName e = cell r 5 \<and> itemName e = cell r 6 \<and> workDescription e = cell r 7
           \<and> quantity e = NumF (parseFloat (cell r 9)) \<and> unitPrice e = NumF (parseFloat (cell r 10))
           \<and> personName e = cell r 12"
  using assms by (simp add: make_deduction_def split_meter_def js_or_def Let_def)

lemma flat_row_cells:
  "cell (flat_row env date time p c d) 0 = VString date"
  "cell (flat_row env date time p c d) (Suc 0) = VString time"
  "cell (flat_row env date time p c d) 2 = VString (payload_userEmail p)"
  "cell (flat_row env date time p c d) 3 = VString (payload_company p)"
  "cell (flat_row env date time p c d) 4 = contractorName c"
  "cell (flat_row env date time p c d) 5 = js_or (contractName d) (VString [])"
  "cell (flat_row env date time p c d) 6 = js_or (itemName d) (VString [])"
  "cell (flat_row env date time p c d) 7 = js_or (workDescription d) (VString [])"
  "cell (flat_row env date time p c d) 8 = VString (meterEquivalent env d)"
  "cell (flat_row env date time p c d) 9 = VNumber (number_or_zero (quantity d))"
  "cell (flat_row env date time p c d) 10 = VNumber (number_or_zero (unitPrice d))"
  "cell (flat_row env date time p c d) 12 = js_or (personName d) (VString [])"
  "cell (flat_row env date time p c d) 13 = js_or (notes c) (VString [])"
  "cell (flat_row env date time p c d) 14 = VString pending_review"
  by (simp_all add: flat_row_def cell_def)

text \<open>
  The round trip of the mapper, for a contractor whose name is not a property name that
  every plain object inherits: the rows that the flatten step makes of one contractor with
  two deductions reconstruct to one report with one contractor that holds the two line
  items in their order, and the grand total is the sum of quantity times unit price of the
  two items, the one that the submission computes.
\<close>

lemma flatten_then_reconstruct:
  assumes p: "payload_contractors p = [c]" and ds: "deductions c = [d1, d2]"
    and nm: "to_string env (contractorName c) \<notin> set object_prototype_keys"
  shows "\<exists>s c' e1 e2.
      parseSubmissionsFromRows env (rowsToAppend env date time p) = Inr [s]
    \<and> timestamp s = date @ [32] @ time
    \<and> contractors s = [c'] \<and> contractorName c' = contractorName c
    \<and> notes c' = js_or (notes c) (VString [])
    \<and> deductions c' = [e1, e2]
    \<and> from_row env e1 (flat_row env date time p c d1)
    \<and> from_row env e2 (flat_row env date time p c d2)
    \<and> itemName e1 = js_or (itemName d1) (VString [])
    \<and> itemName e2 = js_or (itemName d2) (VString [])
    \<and> quantity e1 = NumF (number_or_zero (quantity d1))
    \<and> unitPrice e1 = NumF (number_or_zero (unitPrice d1))
    \<and> quantity e2 = NumF (number_or_zero (quantity d2))
    \<and> unitPrice e2 = NumF (number_or_zero (unitPrice d2))
    \<and> grandTotal s = submit_grand_total (payload_contractors p)
    \<and> grandTotal s =
        js_add (js_mul (number_or_zero (quantity d1)) (number_or_zero (unitPrice d1)))
               (js_mul (number_or_zero (quantity d2)) (number_or_zero (unitPrice d2)))"
proof -
  define r1 where "r1 = flat_row env date time p c d1"
  define r2 where "r2 = flat_row env date time p c d2"
  define K where "K = date @ [32] @ time"
  define N where "N = to_string env (contractorName c)"
  have rows: "rowsToAppend env date time p = [r1, r2]"
    by (simp add: rowsToAppend_def p ds r1_def r2_def)
  have k: "timestampKey env r1 = K" "timestampKey env r2 = K"
    by (simp_all add: timestampKey_def r1_def r2_def flat_row_cells K_def)
  have Kp: "K \<notin> set object_prototype_keys" using timestampKey_not_proto[of env r1] k by simp
  have Ki: "\<not> is_array_index K" using timestampKey_not_index[of env r1] k by simp
  have g: "groupedByTimestamp env [] [r1, r2] = Inr [(K, [r1, r2])]"
    by (simp add: k obj_get_def Kp)
  have oe: "own_entries [(K, [r1, r2])] = [(K, [r1, r2])]"
    by (simp add: own_entries_def Ki)
  obtain e1 where e1: "make_deduction env 0 r1 = Inr e1"
    "itemName e1 = cell r1 6" "quantity e1 = NumF (parseFloat (cell r1 9))"
    "unitPrice e1 = NumF (parseFloat (cell r1 10))"
    using make_deduction_text_cell[of r1 "meterEquivalent env d1" env 0]
    by (auto simp: r1_def flat_row_cells)
  obtain e2 where e2: "make_deduction env (Suc 0) r2 = Inr e2"
    "itemName e2 = cell r2 6" "quantity e2 = NumF (parseFloat (cell r2 9))"
    "unitPrice e2 = NumF (parseFloat (cell r2 10))"
    using make_deduction_text_cell[of r2 "meterEquivalent env d2" env "Suc 0"]
    by (auto simp: r2_def flat_row_cells)
  have n: "to_string env (cell r1 4) = N" "to_string env (cell r2 4) = N"
    by (simp_all add: r1_def r2_def flat_row_cells N_def)
  have Np: "N \<notin> set object_prototype_keys" using nm by (simp add: N_def)
  define c1 where "c1 = (new_contractor env r1)\<lparr>deductions := [e1]\<rparr>"
  have a1: "add_row env (0, []) r1 = Inr (Suc 0, [(N, c1)])"
    by (simp add: add_row_def n obj_get_def Np e1(1) c1_def new_contractor_def)
  define c2 where "c2 = (new_contractor env r1)\<lparr>deductions := [e1, e2]\<rparr>"
  have a2: "add_row env (Suc 0, [(N, c1)]) r2 = Inr (Suc (Suc 0), [(N, c2)])"
    by (simp add: add_row_def n obj_get_def e2(1) c1_def c2_def)
  have cm: "contractorsMap env (0, []) [r1, r2] = Inr (Suc (Suc 0), [(N, c2)])"
    by (simp add: a1 a2)
  have oc: "own_entries [(N, c2)] = [(N, c2)]"
    by (simp add: own_entries_def)
  define s where "s = \<lparr> reportId = str ''report-'' @ replace_space_colon K,
                    timestamp = K,
                    userEmail = cell r1 2,
                    status = js_or (cell r1 14) (VString pending_review),
                    company = cell r1 3,
                    contractors = [c2],
                    grandTotal = grand_total [c2] \<rparr>"
  have ms: "make_submission env 0 (K, [r1, r2]) = Inr (Suc (Suc 0), s)"
    by (simp add: make_submission_def cm oc s_def del: contractorsMap.simps)
  have parse: "parseSubmissionsFromRows env (rowsToAppend env date time p) = Inr [s]"
    by (simp add: parseSubmissionsFromRows_def rows g oe ms sort_submissions_def
        del: groupedByTimestamp.simps)
  have q: "quantity e1 = NumF (number_or_zero (quantity d1))"
    "unitPrice e1 = NumF (number_or_zero (unitPrice d1))"
    "quantity e2 = NumF (number_or_zero (quantity d2))"
    "unitPrice e2 = NumF (number_or_zero (unitPrice d2))"
    "itemName e1 = js_or (itemName d1) (VString [])"
    "itemName e2 = js_or (itemName d2) (VString [])"
    using e1 e2 by (simp_all add: r1_def r2_def flat_row_cells)
  have gt: "grand_total [c2] =
        js_add (js_mul (number_or_zero (quantity d1)) (number_or_zero (unitPrice d1)))
               (js_mul (number_or_zero (quantity d2)) (number_or_zero (unitPrice d2)))"
    by (simp add: grand_total_def contractor_total_def deduction_total_def c2_def q js_add_zero_left)
  have sg: "submit_grand_total (payload_contractors p) =
        js_add (js_mul (number_or_zero (quantity d1)) (number_or_zero (unitPrice d1)))
               (js_mul (number_or_zero (quantity d2)) (number_or_zero (unitPrice d2)))"
    by (simp add: submit_grand_total_def p ds js_add_zero_left)
  have fr: "from_row env e1 (flat_row env date time p c d1)"
    "from_row env e2 (flat_row env date time p c d2)"
    using make_deduction_from_row[OF e1(1)] make_deduction_from_row[OF e2(1)]
    by (simp_all add: r1_def r2_def)
  have cf: "contractorName c2 = contractorName c" "notes c2 = js_or (notes c) (VString [])"
    "deductions c2 = [e1, e2]"
    by (simp_all add: c2_def new_contractor_def r1_def flat_row_cells js_or_def)
  show ?thesis
    apply (rule exI[of _ s], rule exI[of _ c2], rule exI[of _ e1], rule exI[of _ e2])
    using parse fr q gt sg cf by (simp add: s_def K_def)
qed

lemmas flatten_defs = rowsToAppend_def flat_row_def meterEquivalent_def number_or_zero_def
  payload_for_def two_items_def

text \<open>
  Claim C1 fails on the code for a contractor named \<open>constructor\<close>: the dictionary of the
  contractors is a plain object, the lookup of that name finds the inherited property, no
  contractor is created, and the push of the first deduction throws a \<open>TypeError\<close>. For
  the contractor name \<open>A\<close> the same payload comes back as one report with one contractor,
  both items in order and the grand total 2 * 3 + 1 * 5 = 11.
\<close>

theorem roundtrip_throws_for_inherited_name:
  "parseSubmissionsFromRows env
     (rowsToAppend env (str ''2024-06-01'') (str ''10:00'') (payload_for (str ''constructor'')))
   = Inl TypeError
   \<and> map_sum id (map (\<lambda>s. (map (\<lambda>c. (contractorName c, map itemName (deductions c))) (contractors s),
                               grandTotal s)))
       (parseSubmissionsFromRows env
         (rowsToAppend env (str ''2024-06-01'') (str ''10:00'') (payload_for (str ''A''))))
     = Inr [([(VString (str ''A''), [VString (str ''item 1''), VString (str ''item 2'')])], Fin 11)]"
  by (simp add: parse_defs flatten_defs)

section \<open>Properties of the operations on the store\<close>

text \<open>
  Claim C10. Every call of \<open>submitDeductions\<close> leaves the list \<open>mockSubmissions\<close> longer by
  exactly one entry, appended at its end: the new submission, whose identifier is the
  value of \<open>randomUUID\<close>, whose timestamp is the ISO reading of the clock and whose status
  is the pending-review literal. The list after the call depends neither on whether the
  store is configured nor on what the store answers, since the entry is pushed before the
  API is looked up; in particular it is appended when every store call throws and the
  call ends with an error.
\<close>

theorem submit_appends_to_mock_list:
  "snd (submitDeductions env clk configured st mockSubmissions p)
     = mockSubmissions @ [newSubmission env clk p]
   \<and> length (snd (submitDeductions env clk configured st mockSubmissions p))
     = Suc (length mockSubmissions)
   \<and> reportId (newSubmission env clk p) = randomUUID env 0
   \<and> timestamp (newSubmission env clk p) = iso_now clk
   \<and> status (newSubmission env clk p) = VString pending_review
   \<and> fst (fst (submitDeductions env clk True failing_store mockSubmissions p))
     = Inl (Error SendFailed)"
  by (simp add: submitDeductions_def newSubmission_def Let_def send_to_sheet_def
      ensureSheetAndHeaders_def init_failed_def failing_store_def friendlyMessage_def)

lemma text_or_text:
  "(case v of VNumber n \<Rightarrow> \<not> truthy_num n | _ \<Rightarrow> True)
   \<Longrightarrow> text_or v dflt = Inr (if cell_text v = [] then dflt else cell_text v)"
  by (cases v) (auto simp: text_or_def js_or_def cell_text_def)

lemma text_or_number:
  "\<not> (case v of VNumber n \<Rightarrow> \<not> truthy_num n | _ \<Rightarrow> True) \<Longrightarrow> text_or v dflt = Inl TypeError"
  by (cases v) (auto simp: text_or_def js_or_def)

lemma text_or_cases: "text_or v dflt = Inl e \<Longrightarrow> e = TypeError"
  by (cases v) (auto simp: text_or_def js_or_def split: if_splits)

lemma row_matches_text:
  assumes "text_cells r"
  shows "row_matches env email pw role r = Inr (stored_matches env email pw role r)"
proof -
  from assms have c: "(case cell r 0 of VNumber n \<Rightarrow> \<not> truthy_num n | _ \<Rightarrow> True)"
    "(case cell r 1 of VNumber n \<Rightarrow> \<not> truthy_num n | _ \<Rightarrow> True)"
    "(case cell r 2 of VNumber n \<Rightarrow> \<not> truthy_num n | _ \<Rightarrow> True)"
    by (simp_all add: text_cells_def)
  have t0: "text_or (cell r 0) [] = Inr (cell_text (cell r 0))"
    using text_or_text[OF c(1), of "[]"] by simp
  have t1: "text_or (cell r 1) [] = Inr (cell_text (cell r 1))"
    using text_or_text[OF c(2), of "[]"] by simp
  have t2: "text_or (cell r 2) (str ''user'')
      = Inr (if cell_text (cell r 2) = [] then str ''user'' else cell_text (cell r 2))"
    using text_or_text[OF c(3)] by simp
  show ?thesis
    unfolding row_matches_def t0 t1 t2 by (simp add: stored_matches_def stored_role_def)
qed

lemma row_matches_number:
  assumes "\<not> text_cells r"
  shows "row_matches env email pw role r = Inl TypeError"
proof -
  from assms consider
      "\<not> (case cell r 0 of VNumber n \<Rightarrow> \<not> truthy_num n | _ \<Rightarrow> True)"
    | "\<not> (case cell r 1 of VNumber n \<Rightarrow> \<not> truthy_num n | _ \<Rightarrow> True)"
    | "\<not> (case cell r 2 of VNumber n \<Rightarrow> \<not> truthy_num n | _ \<Rightarrow> True)"
    by (auto simp: text_cells_def)
  then show ?thesis
  proof cases
    case 1
    then show ?thesis by (simp add: row_matches_def text_or_number)
  next
    case 2
    then show ?thesis
      by (auto simp: row_matches_def text_or_number split: sum.splits dest: text_or_cases)
  next
    case 3
    then show ?thesis
      by (auto simp: row_matches_def text_or_number split: sum.splits dest: text_or_cases)
  qed
qed

lemma validate_rows_cases:
  "validate_rows env email pw role rows =
     (if \<exists>r\<in>set (takeWhile text_cells rows). stored_matches env email pw role r
      then Inr (True, Some role)
      else if list_all text_cells rows then Inr (False, None) else Inl TypeError)"
proof (induction rows)
  case Nil
  show ?case by simp
next
  case (Cons a rows)
  show ?case
  proof (cases "text_cells a")
    case True
    show ?thesis
    proof (cases "stored_matches env email pw role a")
      case m: True
      with True show ?thesis by (simp add: row_matches_text)
    next
      case m: False
      with True Cons.IH show ?thesis by (simp add: row_matches_text)
    qed
  next
    case False
    then show ?thesis by (simp add: row_matches_number)
  qed
qed

text \<open>
  Claim C8, amended. With a configured store, validation succeeds, granting the requested
  role, exactly when the users sheet is there (or was created), its rows are read, and
  some stored row has an email equal to the provided one after trimming and lower-casing
  both, a password equal to the provided one after trimming both, and a stored role (the
  role cell trimmed and lower-cased, \<open>user\<close> when the cell is empty or absent) equal to the
  requested role. In every other case (no such row, a sheet without data rows, a failure
  of the store) it returns invalid with no role. The rows are those that the store
  returns, which hold strings: the rows are examined in their order, and the examination
  ends, with the answer invalid, at a row that holds a number other than 0 and NaN among
  its first three cells.
\<close>

theorem validateUser_accepts_matching_row:
  "fst (validateUser env True st email password_provided expectedRole)
     = Inr (if \<exists>tr rows.
                 ensureSheetAndHeaders st USERS_SHEET_NAME USER_HEADERS [] = (Inr (), tr)
                 \<and> values_get st tr (USERS_SHEET_NAME @ str ''!A2:C'') = Inr (Some rows)
                 \<and> (\<exists>r\<in>set (takeWhile text_cells rows).
                       toLowerCase env (js_trim (cell_text (cell r 0)))
                         = toLowerCase env (js_trim email)
                       \<and> js_trim (cell_text (cell r 1)) = js_trim password_provided
                       \<and> stored_role env r = role_string expectedRole)
            then (True, Some expectedRole) else (False, None))"
proof (cases "ensureSheetAndHeaders st USERS_SHEET_NAME USER_HEADERS []")
  case (Pair res tr)
  show ?thesis
  proof (cases res)
    case (Inl e)
    with Pair show ?thesis by (simp add: validateUser_def)
  next
    case (Inr u)
    show ?thesis
    proof (cases "values_get st tr (USERS_SHEET_NAME @ str ''!A2:C'')")
      case (Inl e)
      with Pair Inr show ?thesis by (simp add: validateUser_def)
    next
      case got: (Inr answer)
      show ?thesis
      proof (cases answer)
        case None
        with Pair Inr got show ?thesis by (simp add: validateUser_def)
      next
        case (Some rows)
        have "fst (validateUser env True st email password_provided expectedRole)
            = Inr (if \<exists>r\<in>set (takeWhile text_cells rows).
                        stored_matches env email password_provided expectedRole r
                   then (True, Some expectedRole) else (False, None))"
          using Pair Inr got Some
          by (simp add: validateUser_def validate_rows_cases[of env email password_provided
                expectedRole rows])
        moreover have "(\<exists>tr rows.
                 ensureSheetAndHeaders st USERS_SHEET_NAME USER_HEADERS [] = (Inr (), tr)
                 \<and> values_get st tr (USERS_SHEET_NAME @ str ''!A2:C'') = Inr (Some rows)
                 \<and> (\<exists>r\<in>set (takeWhile text_cells rows).
                       toLowerCase env (js_trim (cell_text (cell r 0)))
                         = toLowerCase env (js_trim email)
                       \<and> js_trim (cell_text (cell r 1)) = js_trim password_provided
                       \<and> stored_role env r = role_string expectedRole))
            \<longleftrightarrow> (\<exists>r\<in>set (takeWhile text_cells rows).
                        stored_matches env email password_provided expectedRole r)"
          using Pair Inr got Some unfolding stored_matches_def by auto
        ultimately show ?thesis by (simp only:)
      qed
    qed
  qed
qed

lemmas user_defs = validateUser_def ensureSheetAndHeaders_def users_store_def USERS_SHEET_NAME_def
  USER_HEADERS_def js_endsWith_def row_matches_def text_or_def js_or_def cell_def js_trim_def
  example_env_def ascii_lower_def is_white_space_def str_def

text \<open>
  Claim C8 as stated fails: a row whose role cell is \<open>Admin\<close> validates for the requested
  role \<open>admin\<close>, and a row without a role cell validates for the requested role \<open>user\<close>,
  although in both the stored role cell is not the requested role.
\<close>

theorem role_cell_not_compared_exactly:
  "fst (validateUser example_env True (users_store mixed_case_users)
          (str ''boss@test.com'') (str ''pw'') Admin)
     = Inr (True, Some Admin)
   \<and> cell (mixed_case_users ! 0) 2 \<noteq> VString (role_string Admin)
   \<and> fst (validateUser example_env True (users_store mixed_case_users)
            (str ''worker@test.com'') (str ''pw'') User)
     = Inr (True, Some User)
   \<and> cell (mixed_case_users ! 1) 2 = VUndefined"
  by (simp add: user_defs mixed_case_users_def)

theorem validateUser_accepts_matching_row_witness:
  "ensureSheetAndHeaders (users_store mixed_case_users) USERS_SHEET_NAME USER_HEADERS []
     = (Inr (), [SpreadsheetsGet])
   \<and> values_get (users_store mixed_case_users) [SpreadsheetsGet] (USERS_SHEET_NAME @ str ''!A2:C'')
     = Inr (Some mixed_case_users)
   \<and> takeWhile text_cells mixed_case_users = mixed_case_users
   \<and> fst (validateUser example_env True (users_store mixed_case_users)
            (str ''boss@test.com'') (str ''pw'') Admin)
     = Inr (True, Some Admin)
   \<and> fst (validateUser example_env True (users_store mixed_case_users)
            (str ''boss@test.com'') (str ''pw'') User)
     = Inr (False, None)
   \<and> fst (validateUser example_env True (users_store mixed_case_users)
            (str ''boss@test.com'') (str ''other'') Admin)
     = Inr (False, None)
   \<and> fst (validateUser example_env True empty_users_store
            (str ''boss@test.com'') (str ''pw'') Admin)
     = Inr (False, None)
   \<and> fst (validateUser example_env True failing_store
            (str ''boss@test.com'') (str ''pw'') Admin)
     = Inr (False, None)"
proof -
  let ?st = "users_store mixed_case_users"
  have e: "\<And>res tr. ensureSheetAndHeaders ?st USERS_SHEET_NAME USER_HEADERS [] = (res, tr)
      \<longleftrightarrow> res = Inr () \<and> tr = [SpreadsheetsGet]"
    by (auto simp: ensureSheetAndHeaders_def users_store_def USERS_SHEET_NAME_def js_endsWith_def
        str_def)
  have g: "\<And>tr. values_get ?st tr (USERS_SHEET_NAME @ str ''!A2:C'') = Inr (Some mixed_case_users)"
    by (simp add: users_store_def)
  have t: "takeWhile text_cells mixed_case_users = mixed_case_users"
    by (simp add: text_cells_def mixed_case_users_def cell_def)
  have ee: "\<And>res tr. ensureSheetAndHeaders empty_users_store USERS_SHEET_NAME USER_HEADERS []
      = (res, tr) \<longleftrightarrow> res = Inr () \<and> tr = [SpreadsheetsGet]"
    by (auto simp: ensureSheetAndHeaders_def empty_users_store_def USERS_SHEET_NAME_def
        js_endsWith_def str_def)
  have eg: "\<And>tr rng. values_get empty_users_store tr rng = Inr None"
    by (simp add: empty_users_store_def)
  have fe: "\<And>tr. ensureSheetAndHeaders failing_store USERS_SHEET_NAME USER_HEADERS []
      \<noteq> (Inr (), tr)"
    by (simp add: ensureSheetAndHeaders_def failing_store_def init_failed_def)
  have a: "fst (validateUser example_env True ?st (str ''boss@test.com'') (str ''pw'') Admin)
     = Inr (True, Some Admin)"
    unfolding validateUser_accepts_matching_row e g
    by (simp add: t)
       (simp add: mixed_case_users_def stored_role_def cell_text_def cell_def js_trim_def
        example_env_def ascii_lower_def is_white_space_def str_def)
  have b: "fst (validateUser example_env True ?st (str ''boss@test.com'') (str ''pw'') User)
     = Inr (False, None)"
    unfolding validateUser_accepts_matching_row e g
    by (simp add: t)
       (simp add: mixed_case_users_def stored_role_def cell_text_def cell_def js_trim_def
        example_env_def ascii_lower_def is_white_space_def str_def)
  have c: "fst (validateUser example_env True ?st (str ''boss@test.com'') (str ''other'') Admin)
     = Inr (False, None)"
    unfolding validateUser_accepts_matching_row e g
    by (simp add: t)
       (simp add: mixed_case_users_def stored_role_def cell_text_def cell_def js_trim_def
        example_env_def ascii_lower_def is_white_space_def str_def)
  have d: "fst (validateUser example_env True empty_users_store
            (str ''boss@test.com'') (str ''pw'') Admin) = Inr (False, None)"
    unfolding validateUser_accepts_matching_row ee eg by simp
  have f: "fst (validateUser example_env True failing_store
            (str ''boss@test.com'') (str ''pw'') Admin) = Inr (False, None)"
    unfolding validateUser_accepts_matching_row using fe by simp
  have e': "ensureSheetAndHeaders ?st USERS_SHEET_NAME USER_HEADERS [] = (Inr (), [SpreadsheetsGet])"
    using e by simp
  show ?thesis using e' g[of "[SpreadsheetsGet]"] t a b c d f by (intro conjI)
qed

lemma set_rowIndicesToUpdate:
  "n \<in> set (rowIndicesToUpdate env rid rows)
   \<longleftrightarrow> (\<exists>i<length rows. n = i + 2 \<and> js_startsWith (comparableRowId env (rows ! i)) rid)"
  by (auto simp: rowIndicesToUpdate_def)









lemma outcomes_from_append:
  "outcomes_from st h (a @ b) = outcomes_from st h a @ outcomes_from st (h @ a) b"
  by (induction a arbitrary: h) simp_all

lemma outcomes_from_Nil_iff: "outcomes_from st h a = [] \<longleftrightarrow> a = []"
  by (cases a) simp_all

lemma clean_Nil: "clean st h []"
  by (simp add: clean_def)

lemma clean_Cons: "clean st h (rq # rqs) \<longleftrightarrow> \<not> failed_call st h rq \<and> clean st (h @ [rq]) rqs"
  by (auto simp: clean_def)

lemma failed_last_single: "failed_last st h [rq] \<longleftrightarrow> failed_call st h rq"
  by (simp add: failed_last_def)

lemma failed_last_Cons:
  "rqs \<noteq> [] \<Longrightarrow> failed_last st h (rq # rqs)
     \<longleftrightarrow> \<not> failed_call st h rq \<and> failed_last st (h @ [rq]) rqs"
  by (auto simp: failed_last_def outcomes_from_Nil_iff)

lemma clean_append: "clean st h (a @ b) \<longleftrightarrow> clean st h a \<and> clean st (h @ a) b"
  by (auto simp: clean_def outcomes_from_append)

lemma failed_last_append:
  "clean st h a \<Longrightarrow> failed_last st (h @ a) b \<Longrightarrow> failed_last st h (a @ b)"
  by (auto simp: clean_def failed_last_def outcomes_from_append butlast_append outcomes_from_Nil_iff)

lemma update_headers_calls:
  "\<exists>new. snd (update_headers st name cur tr) = tr @ new
     \<and> ((fst (update_headers st name cur tr) = Inr () \<and> clean st tr new)
        \<or> (fst (update_headers st name cur tr) = Inl (Error (FailedToInitializeSheet name))
            \<and> failed_last st tr new))"
  by (auto simp: update_headers_def init_failed_def Let_def clean_Nil clean_Cons failed_last_single
      split: option.splits)

lemma create_sheet_calls:
  "\<exists>new. snd (create_sheet st name hdrs tr) = tr @ new
     \<and> ((fst (create_sheet st name hdrs tr) = Inr () \<and> clean st tr new)
        \<or> (fst (create_sheet st name hdrs tr) = Inl (Error (FailedToInitializeSheet name))
            \<and> failed_last st tr new))"
  by (auto simp: create_sheet_def init_failed_def Let_def clean_Nil clean_Cons failed_last_single
      failed_last_Cons split: option.splits)

lemma clean_prepend:
  "\<not> failed_call st tr rq \<Longrightarrow> clean st (tr @ [rq]) new \<Longrightarrow> clean st tr (rq # new)"
  by (simp add: clean_Cons)

lemma failed_last_prepend:
  assumes "\<not> failed_call st tr rq" and "failed_last st (tr @ [rq]) new"
  shows "failed_last st tr (rq # new)"
proof -
  have "new \<noteq> []" using assms(2) by (simp add: failed_last_def)
  then show ?thesis using assms by (simp add: failed_last_Cons)
qed

lemma check_headers_calls:
  "\<exists>new. snd (check_headers st name tr) = tr @ new
     \<and> ((fst (check_headers st name tr) = Inr () \<and> clean st tr new)
        \<or> (fst (check_headers st name tr) = Inl (Error (FailedToInitializeSheet name))
            \<and> (clean st tr new \<or> failed_last st tr new)))"
proof -
  let ?rng = "name @ str ''!1:1''"
  let ?tr = "tr @ [ValuesGet ?rng]"
  show ?thesis
  proof (cases "values_get st tr ?rng")
    case (Inl e)
    then show ?thesis
      by (auto simp: check_headers_def init_failed_def Let_def failed_last_single)
  next
    case (Inr vs)
    have c0: "\<not> failed_call st tr (ValuesGet ?rng)" using Inr by simp
    have c1: "clean st tr [ValuesGet ?rng]" using Inr by (simp add: clean_Cons clean_Nil)
    show ?thesis
    proof (cases "vs = Some []")
      case True
      then show ?thesis using Inr c1
        by (auto simp: check_headers_def init_failed_def Let_def)
    next
      case False
      define cur where "cur = (case vs of None \<Rightarrow> [] | Some (h # _) \<Rightarrow> h | Some [] \<Rightarrow> [])"
      have eq: "check_headers st name tr = update_headers st name cur ?tr"
        using Inr False by (auto simp: check_headers_def Let_def cur_def split: option.splits list.splits)
      from update_headers_calls[of st name cur ?tr] obtain new where
        new: "snd (update_headers st name cur ?tr) = ?tr @ new"
        "(fst (update_headers st name cur ?tr) = Inr () \<and> clean st ?tr new)
         \<or> (fst (update_headers st name cur ?tr) = Inl (Error (FailedToInitializeSheet name))
            \<and> failed_last st ?tr new)" by blast
      have s: "snd (check_headers st name tr) = tr @ ([ValuesGet ?rng] @ new)"
        using new(1) eq by simp
      have "(fst (check_headers st name tr) = Inr () \<and> clean st tr ([ValuesGet ?rng] @ new))
        \<or> (fst (check_headers st name tr) = Inl (Error (FailedToInitializeSheet name))
            \<and> (clean st tr ([ValuesGet ?rng] @ new) \<or> failed_last st tr ([ValuesGet ?rng] @ new)))"
        using new(2) c0 unfolding eq
        by (auto intro: clean_prepend failed_last_prepend)
      with s show ?thesis by blast
    qed
  qed
qed

lemma ensure_calls:
  "\<exists>new. snd (ensureSheetAndHeaders st name hdrs tr) = tr @ new
     \<and> ((fst (ensureSheetAndHeaders st name hdrs tr) = Inr () \<and> clean st tr new)
        \<or> (fst (ensureSheetAndHeaders st name hdrs tr) = Inl (Error (FailedToInitializeSheet name))
            \<and> (clean st tr new \<or> failed_last st tr new)))"
proof (cases "spreadsheets_get st tr")
  case (Inl e)
  then show ?thesis
    by (auto simp: ensureSheetAndHeaders_def init_failed_def failed_last_single)
next
  case (Inr titles)
  let ?tr = "tr @ [SpreadsheetsGet]"
  have c0: "\<not> failed_call st tr SpreadsheetsGet" using Inr by simp
  have c1: "clean st tr [SpreadsheetsGet]" using Inr by (simp add: clean_Cons clean_Nil)
  consider (create) "name \<notin> set titles"
    | (check) "name \<in> set titles" "js_endsWith name (str ''REQUEST'')"
    | (none) "name \<in> set titles" "\<not> js_endsWith name (str ''REQUEST'')" by blast
  then show ?thesis
  proof cases
    case create
    then have eq: "ensureSheetAndHeaders st name hdrs tr = create_sheet st name hdrs ?tr"
      using Inr by (simp add: ensureSheetAndHeaders_def)
    from create_sheet_calls[of st name hdrs ?tr] obtain new where
      new: "snd (create_sheet st name hdrs ?tr) = ?tr @ new"
      "(fst (create_sheet st name hdrs ?tr) = Inr () \<and> clean st ?tr new)
       \<or> (fst (create_sheet st name hdrs ?tr) = Inl (Error (FailedToInitializeSheet name))
          \<and> failed_last st ?tr new)" by blast
    have s: "snd (ensureSheetAndHeaders st name hdrs tr) = tr @ ([SpreadsheetsGet] @ new)"
      using new(1) eq by simp
    have "(fst (ensureSheetAndHeaders st name hdrs tr) = Inr () \<and> clean st tr ([SpreadsheetsGet] @ new))
        \<or> (fst (ensureSheetAndHeaders st name hdrs tr) = Inl (Error (FailedToInitializeSheet name))
            \<and> (clean st tr ([SpreadsheetsGet] @ new) \<or> failed_last st tr ([SpreadsheetsGet] @ new)))"
      using new(2) c0 unfolding eq by (auto intro: clean_prepend failed_last_prepend)
    with s show ?thesis by blast
  next
    case check
    then have eq: "ensureSheetAndHeaders st name hdrs tr = check_headers st name ?tr"
      using Inr by (simp add: ensureSheetAndHeaders_def)
    from check_headers_calls[of st name ?tr] obtain new where
      new: "snd (check_headers st name ?tr) = ?tr @ new"
      "(fst (check_headers st name ?tr) = Inr () \<and> clean st ?tr new)
       \<or> (fst (check_headers st name ?tr) = Inl (Error (FailedToInitializeSheet name))
          \<and> (clean st ?tr new \<or> failed_last st ?tr new))" by blast
    have s: "snd (ensureSheetAndHeaders st name hdrs tr) = tr @ ([SpreadsheetsGet] @ new)"
      using new(1) eq by simp
    have "(fst (ensureSheetAndHeaders st name hdrs tr) = Inr () \<and> clean st tr ([SpreadsheetsGet] @ new))
        \<or> (fst (ensureSheetAndHeaders st name hdrs tr) = Inl (Error (FailedToInitializeSheet name))
            \<and> (clean st tr ([SpreadsheetsGet] @ new) \<or> failed_last st tr ([SpreadsheetsGet] @ new)))"
      using new(2) c0 unfolding eq by (auto intro: clean_prepend failed_last_prepend)
    with s show ?thesis by blast
  next
    case none
    then have "ensureSheetAndHeaders st name hdrs tr = (Inr (), tr @ [SpreadsheetsGet])"
      using Inr by (simp add: ensureSheetAndHeaders_def)
    then show ?thesis using c1 by auto
  qed
qed

text \<open>After the sheet was ensured, one more call follows.\<close>

lemma then_one_call:
  assumes "clean st tr new"
  shows "clean st tr (new @ [rq]) \<longleftrightarrow> \<not> failed_call st (tr @ new) rq"
    and "failed_call st (tr @ new) rq \<Longrightarrow> failed_last st tr (new @ [rq])"
  using assms by (auto simp: clean_append clean_Cons clean_Nil failed_last_single
      intro: failed_last_append)

lemma ensure_first:
  assumes "ensureSheetAndHeaders st name hdrs [] = (r, tr)"
  shows "(r = Inr () \<and> clean st [] tr)
       \<or> (r = Inl (Error (FailedToInitializeSheet name)) \<and> (clean st [] tr \<or> failed_last st [] tr))"
  using ensure_calls[of st name hdrs "[]"] assms by auto

lemma one_more_clean:
  "clean st [] tr \<Longrightarrow> \<not> failed_call st tr rq \<Longrightarrow> clean st [] (tr @ [rq])"
  using then_one_call(1)[of st "[]" tr rq] by simp

lemma one_more_failed:
  "clean st [] tr \<Longrightarrow> failed_call st tr rq \<Longrightarrow> failed_last st [] (tr @ [rq])"
  using then_one_call(2)[of st "[]" tr rq] by simp

lemma fetch_list_reraises: "reraises st (fetch_list st name hdrs rng err)"
proof -
  obtain r tr where e: "ensureSheetAndHeaders st name hdrs [] = (r, tr)"
    by (cases "ensureSheetAndHeaders st name hdrs []")
  from ensure_first[OF e] show ?thesis
  proof
    assume a: "r = Inr () \<and> clean st [] tr"
    show ?thesis
    proof (cases "values_get st tr rng")
      case (Inl x)
      then have "failed_last st [] (tr @ [ValuesGet rng])" using a by (simp add: one_more_failed)
      then show ?thesis using a e Inl by (simp add: reraises_def fetch_list_def)
    next
      case (Inr v)
      then have "clean st [] (tr @ [ValuesGet rng])" using a by (simp add: one_more_clean)
      then show ?thesis using a e Inr by (simp add: reraises_def fetch_list_def split: option.splits)
    qed
  next
    assume "r = Inl (Error (FailedToInitializeSheet name)) \<and> (clean st [] tr \<or> failed_last st [] tr)"
    then show ?thesis using e by (auto simp: reraises_def fetch_list_def)
  qed
qed

lemma send_to_sheet_reraises: "reraises st (send_to_sheet env clk st p)"
proof -
  let ?name = "payload_company p @ str '' REQUEST''"
  let ?rows = "rowsToAppend env (cairo_date clk) (cairo_time clk) p"
  let ?rq = "ValuesAppend (?name @ str ''!A1'') ?rows"
  obtain r tr where e: "ensureSheetAndHeaders st ?name SUBMISSION_HEADERS [] = (r, tr)"
    by (cases "ensureSheetAndHeaders st ?name SUBMISSION_HEADERS []")
  from ensure_first[OF e] show ?thesis
  proof
    assume a: "r = Inr () \<and> clean st [] tr"
    show ?thesis
    proof (cases "?rows = []")
      case True
      then show ?thesis using a e by (simp add: reraises_def send_to_sheet_def Let_def)
    next
      case False
      show ?thesis
      proof (cases "write_request st tr ?rq")
        case None
        then have "clean st [] (tr @ [?rq])" using a by (simp add: one_more_clean)
        then show ?thesis using a e None False by (simp add: reraises_def send_to_sheet_def Let_def)
      next
        case (Some x)
        then have "failed_last st [] (tr @ [?rq])" using a by (simp add: one_more_failed)
        then show ?thesis using a e Some False by (simp add: reraises_def send_to_sheet_def Let_def)
      qed
    qed
  next
    assume "r = Inl (Error (FailedToInitializeSheet ?name)) \<and> (clean st [] tr \<or> failed_last st [] tr)"
    then show ?thesis using e by (auto simp: reraises_def send_to_sheet_def Let_def)
  qed
qed

lemma updateReportStatus_reraises:
  "reraises st (fst (updateReportStatus env clk True st mock rid company_name newStatus adminEmail))"
  by (auto simp: reraises_def updateReportStatus_def Let_def rethrow_def clean_Cons clean_Nil
      failed_last_single failed_last_Cons split: sum.splits option.splits)

lemma getUserRoleByEmail_swallows: "swallows st None (getUserRoleByEmail env True st email)"
proof (cases "email = []")
  case True
  then show ?thesis by (simp add: swallows_def getUserRoleByEmail_def clean_Nil)
next
  case False
  let ?rng = "USERS_SHEET_NAME @ str ''!A2:C''"
  obtain r tr where e: "ensureSheetAndHeaders st USERS_SHEET_NAME USER_HEADERS [] = (r, tr)"
    by (cases "ensureSheetAndHeaders st USERS_SHEET_NAME USER_HEADERS []")
  from ensure_first[OF e] show ?thesis
  proof
    assume a: "r = Inr () \<and> clean st [] tr"
    show ?thesis
    proof (cases "values_get st tr ?rng")
      case (Inl x)
      then have "failed_last st [] (tr @ [ValuesGet ?rng])" using a by (simp add: one_more_failed)
      then show ?thesis using a e Inl False by (simp add: swallows_def getUserRoleByEmail_def Let_def)
    next
      case (Inr v)
      then have "clean st [] (tr @ [ValuesGet ?rng])" using a by (simp add: one_more_clean)
      then show ?thesis using a e Inr False
        by (simp add: swallows_def getUserRoleByEmail_def Let_def split: option.splits sum.splits)
    qed
  next
    assume "r = Inl (Error (FailedToInitializeSheet USERS_SHEET_NAME))
      \<and> (clean st [] tr \<or> failed_last st [] tr)"
    then show ?thesis using e False by (auto simp: swallows_def getUserRoleByEmail_def)
  qed
qed

lemma validateUser_swallows:
  "swallows st (False, None) (validateUser env True st email password_provided expectedRole)"
proof -
  let ?rng = "USERS_SHEET_NAME @ str ''!A2:C''"
  obtain r tr where e: "ensureSheetAndHeaders st USERS_SHEET_NAME USER_HEADERS [] = (r, tr)"
    by (cases "ensureSheetAndHeaders st USERS_SHEET_NAME USER_HEADERS []")
  from ensure_first[OF e] show ?thesis
  proof
    assume a: "r = Inr () \<and> clean st [] tr"
    show ?thesis
    proof (cases "values_get st tr ?rng")
      case (Inl x)
      then have "failed_last st [] (tr @ [ValuesGet ?rng])" using a by (simp add: one_more_failed)
      then show ?thesis using a e Inl by (simp add: swallows_def validateUser_def Let_def)
    next
      case (Inr v)
      then have "clean st [] (tr @ [ValuesGet ?rng])" using a by (simp add: one_more_clean)
      then show ?thesis using a e Inr
        by (simp add: swallows_def validateUser_def Let_def split: option.splits sum.splits)
    qed
  next
    assume "r = Inl (Error (FailedToInitializeSheet USERS_SHEET_NAME))
      \<and> (clean st [] tr \<or> failed_last st [] tr)"
    then show ?thesis using e by (auto simp: swallows_def validateUser_def)
  qed
qed

lemma read_company_skips: "skips st hist (read_company st company_name hist)"
proof -
  let ?name = "company_name @ str '' REQUEST''"
  let ?rng = "?name @ str ''!A2:Z''"
  let ?E = "ensureSheetAndHeaders st ?name SUBMISSION_HEADERS hist"
  from ensure_calls[of st ?name SUBMISSION_HEADERS hist] obtain new where
    s: "snd ?E = hist @ new"
    and c: "(fst ?E = Inr () \<and> clean st hist new)
       \<or> (fst ?E = Inl (Error (FailedToInitializeSheet ?name))
           \<and> (clean st hist new \<or> failed_last st hist new))" by blast
  have e: "?E = (fst ?E, hist @ new)" using s by (simp add: prod_eq_iff)
  from c show ?thesis
  proof
    assume a: "fst ?E = Inr () \<and> clean st hist new"
    then have e': "?E = (Inr (), hist @ new)" using e by simp
    show ?thesis
    proof (cases "values_get st (hist @ new) ?rng")
      case (Inl x)
      then have "failed_last st hist (new @ [ValuesGet ?rng])"
        using a then_one_call(2)[of st hist new "ValuesGet ?rng"] by simp
      then show ?thesis using e' Inl by (simp add: skips_def read_company_def Let_def)
    next
      case (Inr v)
      then have "clean st hist (new @ [ValuesGet ?rng])"
        using a then_one_call(1)[of st hist new "ValuesGet ?rng"] by simp
      then show ?thesis using e' Inr
        by (simp add: skips_def read_company_def Let_def split: option.splits)
    qed
  next
    assume a: "fst ?E = Inl (Error (FailedToInitializeSheet ?name))
           \<and> (clean st hist new \<or> failed_last st hist new)"
    then have e': "?E = (Inl (Error (FailedToInitializeSheet ?name)), hist @ new)" using e by simp
    show ?thesis using a e' by (auto simp: skips_def read_company_def Let_def)
  qed
qed

text \<open>
  Claim C9, amended. In every public operation, for a configured store, a failed store
  call is never retried: nothing is asked of the store after it (in the two history
  operations: nothing more for that company's sheet). The three list operations, the
  submission and the status update re-raise the failure to the caller as one \<open>Error\<close>.
  The role lookup and the user validation do not: they return \<open>null\<close>, respectively
  invalid with no role. The two history operations skip the company whose sheet could
  not be read and return the reports of the rows of the other sheet; they throw their
  one error only when the reconstruction throws.
\<close>

theorem store_failures_per_operation:
  "reraises st (getContractorList True st)
   \<and> reraises st (getContractList True st company_name)
   \<and> reraises st (getWorkItemList True st company_name)
   \<and> reraises st (fst (submitDeductions env clk True st mockSubmissions p))
   \<and> reraises st
       (fst (updateReportStatus env clk True st mockSubmissions rid company_name newStatus adminEmail))
   \<and> swallows st None (getUserRoleByEmail env True st email)
   \<and> swallows st (False, None) (validateUser env True st email password_provided expectedRole)
   \<and> skips st hist (read_company st company_name hist)
   \<and> getAllSubmissions env st
       = (case parseSubmissionsFromRows env
                 (fst (read_company st (str ''DMC'') [])
                  @ fst (read_company st (str ''CURVE'') (snd (read_company st (str ''DMC'') [])))) of
            Inl e \<Rightarrow> Inl (Error AllReportsFetchFailed)
          | Inr ss \<Rightarrow> Inr ss,
          snd (read_company st (str ''CURVE'') (snd (read_company st (str ''DMC'') []))))
   \<and> getSubmissionHistory env st user startDate endDate
       = (case parseSubmissionsFromRows env
                 (filter_by_dates startDate endDate
                    (filter (\<lambda>r. cell r 2 = VString user) (fst (read_company st (str ''DMC'') []))
                     @ filter (\<lambda>r. cell r 2 = VString user)
                         (fst (read_company st (str ''CURVE'')
                                 (snd (read_company st (str ''DMC'') [])))))) of
            Inl e \<Rightarrow> Inl (Error HistoryFetchFailed)
          | Inr ss \<Rightarrow> Inr ss,
          snd (read_company st (str ''CURVE'') (snd (read_company st (str ''DMC'') []))))"
proof -
  have h1: "getAllSubmissions env st
       = (case parseSubmissionsFromRows env
                 (fst (read_company st (str ''DMC'') [])
                  @ fst (read_company st (str ''CURVE'') (snd (read_company st (str ''DMC'') [])))) of
            Inl e \<Rightarrow> Inl (Error AllReportsFetchFailed)
          | Inr ss \<Rightarrow> Inr ss,
          snd (read_company st (str ''CURVE'') (snd (read_company st (str ''DMC'') []))))"
    by (simp add: getAllSubmissions_def case_prod_unfold split: sum.splits)
  have h2: "getSubmissionHistory env st user startDate endDate
       = (case parseSubmissionsFromRows env
                 (filter_by_dates startDate endDate
                    (filter (\<lambda>r. cell r 2 = VString user) (fst (read_company st (str ''DMC'') []))
                     @ filter (\<lambda>r. cell r 2 = VString user)
                         (fst (read_company st (str ''CURVE'')
                                 (snd (read_company st (str ''DMC'') [])))))) of
            Inl e \<Rightarrow> Inl (Error HistoryFetchFailed)
          | Inr ss \<Rightarrow> Inr ss,
          snd (read_company st (str ''CURVE'') (snd (read_company st (str ''DMC'') []))))"
    by (simp add: getSubmissionHistory_def case_prod_unfold Let_def split: sum.splits)
  have s: "reraises st (fst (submitDeductions env clk True st mockSubmissions p))"
    by (simp add: submitDeductions_def Let_def send_to_sheet_reraises)
  show ?thesis
    using h1 h2 s fetch_list_reraises updateReportStatus_reraises getUserRoleByEmail_swallows
      validateUser_swallows read_company_skips
    by (simp add: getContractorList_def getContractList_def getWorkItemList_def)
qed

lemmas failing_defs = failing_store_def ensureSheetAndHeaders_def init_failed_def
  fetch_list_def read_company_def Let_def

text \<open>
  Claim C9 as stated fails: with a store of which every call throws, the user validation
  and the role lookup return normally, with their negative result, after the one failed
  call, and the history of all submissions returns the empty list.
\<close>

theorem store_failure_swallowed:
  "validateUser example_env True failing_store (str ''user@test.com'') (str ''123'') User
     = (Inr (False, None), [SpreadsheetsGet])
   \<and> getUserRoleByEmail example_env True failing_store (str ''user@test.com'') = (Inr None, [SpreadsheetsGet])
   \<and> outcomes failing_store [SpreadsheetsGet] = [True]
   \<and> getAllSubmissions example_env failing_store = (Inr [], [SpreadsheetsGet, SpreadsheetsGet])"
  by (simp add: validateUser_def getUserRoleByEmail_def getAllSubmissions_def outcomes_def
      failing_defs parseSubmissionsFromRows_def own_entries_def sort_submissions_def str_def)

theorem store_failures_per_operation_witness:
  "\<not> clean failing_store [] (snd (getContractorList True failing_store))
   \<and> failed_last failing_store [] (snd (getContractorList True failing_store))
   \<and> is_Error (fst (getContractorList True failing_store))
   \<and> \<not> clean failing_store [] (snd (validateUser example_env True failing_store (str ''user@test.com'') (str ''123'') User))
   \<and> fst (validateUser example_env True failing_store (str ''user@test.com'') (str ''123'') User)
       = Inr (False, None)"
proof -
  have n1: "\<not> clean failing_store [] (snd (getContractorList True failing_store))"
    by (simp add: getContractorList_def failing_defs clean_def)
  have n2: "\<not> clean failing_store []
      (snd (validateUser example_env True failing_store (str ''user@test.com'') (str ''123'') User))"
    by (simp add: validateUser_def failing_defs clean_def)
  note c9 = store_failures_per_operation[where st = failing_store
      and email = "str ''user@test.com''" and password_provided = "str ''123''"
      and expectedRole = User]
  have r: "reraises failing_store (getContractorList True failing_store)"
    using c9 by (rule conjunct1)
  have s: "swallows failing_store (False, None)
      (validateUser example_env True failing_store (str ''user@test.com'') (str ''123'') User)"
    using c9 by simp
  show ?thesis using n1 n2 r s by (simp add: reraises_def swallows_def)
qed

section \<open>The reconstructed grand total as a sum over the rows\<close>

lemma js_add_commute: "js_add a b = js_add b a"
  by (cases a; cases b) simp_all

lemma js_add_assoc: "js_add (js_add a b) c = js_add a (js_add b c)"
  by (cases a; cases b; cases c) simp_all

lemma js_add_zero_right: "js_add x (Fin 0) = x"
  by (cases x) simp_all

lemma foldl_js_add: "foldl js_add a xs = js_add a (foldl js_add (Fin 0) xs)"
proof (induction xs arbitrary: a)
  case Nil
  then show ?case by (simp add: js_add_zero_right)
next
  case (Cons x xs)
  have "foldl js_add a (x # xs) = js_add (js_add a x) (foldl js_add (Fin 0) xs)"
    using Cons.IH[of "js_add a x"] by simp
  also have "\<dots> = js_add a (js_add x (foldl js_add (Fin 0) xs))" by (rule js_add_assoc)
  also have "js_add x (foldl js_add (Fin 0) xs) = foldl js_add (Fin 0) (x # xs)"
    using Cons.IH[of "js_add (Fin 0) x"] by (simp add: js_add_zero_left)
  finally show ?case .
qed

lemma js_sum_Nil: "js_sum [] = Fin 0"
  by (simp add: js_sum_def)

lemma js_sum_Cons: "js_sum (x # xs) = js_add x (js_sum xs)"
  unfolding js_sum_def using foldl_js_add[of "js_add (Fin 0) x" xs] by (simp add: js_add_zero_left)

lemma contractor_total_sum: "contractor_total c = js_sum (map deduction_total (deductions c))"
  by (simp add: contractor_total_def js_sum_def foldl_map)

lemma grand_total_sum: "grand_total cs = js_sum (map contractor_total cs)"
  by (simp add: grand_total_def js_sum_def foldl_map)

lemma js_sum_add_at:
  assumes "distinct ns" and "k \<in> set ns"
  shows "js_sum (map (\<lambda>n. if n = k then js_add x (g n) else g n) ns) = js_add x (js_sum (map g ns))"
  using assms
proof (induction ns)
  case Nil
  then show ?case by simp
next
  case (Cons n ns)
  show ?case
  proof (cases "n = k")
    case True
    then have "k \<notin> set ns" using Cons.prems(1) by simp
    then have m: "map (\<lambda>n. if n = k then js_add x (g n) else g n) ns = map g ns"
      by (induction ns) auto
    have "js_sum (map (\<lambda>n. if n = k then js_add x (g n) else g n) (n # ns))
        = js_add (js_add x (g k)) (js_sum (map (\<lambda>n. if n = k then js_add x (g n) else g n) ns))"
      using True by (simp add: js_sum_Cons)
    also have "\<dots> = js_add (js_add x (g k)) (js_sum (map g ns))" by (simp only: m)
    also have "\<dots> = js_add x (js_sum (map g (n # ns)))"
      using True by (simp add: js_sum_Cons js_add_assoc)
    finally show ?thesis .
  next
    case False
    then have "k \<in> set ns" using Cons.prems(2) by simp
    then have "js_sum (map (\<lambda>n. if n = k then js_add x (g n) else g n) ns) = js_add x (js_sum (map g ns))"
      using Cons.IH Cons.prems(1) by simp
    then show ?thesis using False
      by (simp add: js_sum_Cons) (metis js_add_assoc js_add_commute)
  qed
qed

lemma js_sum_by_key:
  assumes "distinct ns" and "\<forall>r\<in>set rs. key r \<in> set ns"
  shows "js_sum (map (\<lambda>n. js_sum (map f (filter (\<lambda>r. key r = n) rs))) ns) = js_sum (map f rs)"
  using assms(2)
proof (induction rs)
  case Nil
  have "js_sum (map (\<lambda>n. Fin 0) ns) = Fin 0"
    by (induction ns) (simp_all add: js_sum_Nil js_sum_Cons)
  then show ?case by (simp add: js_sum_Nil)
next
  case (Cons r rs)
  let ?g = "\<lambda>n. js_sum (map f (filter (\<lambda>r. key r = n) rs))"
  have "(\<lambda>n. js_sum (map f (filter (\<lambda>r. key r = n) (r # rs))))
      = (\<lambda>n. if n = key r then js_add (f r) (?g n) else ?g n)"
    by (rule ext) (simp add: js_sum_Cons)
  then have "js_sum (map (\<lambda>n. js_sum (map f (filter (\<lambda>r. key r = n) (r # rs)))) ns)
      = js_sum (map (\<lambda>n. if n = key r then js_add (f r) (?g n) else ?g n) ns)" by simp
  also have "\<dots> = js_add (f r) (js_sum (map ?g ns))"
    using assms(1) Cons.prems by (intro js_sum_add_at) simp_all
  also have "\<dots> = js_sum (map f (r # rs))" using Cons by (simp add: js_sum_Cons)
  finally show ?case .
qed

lemma distinct_own_entries:
  assumes "distinct (map fst ob)"
  shows "distinct (map fst (own_entries ob))"
proof -
  let ?A = "filter (\<lambda>p. is_array_index (fst p)) ob"
  let ?B = "filter (\<lambda>p. \<not> is_array_index (fst p)) ob"
  have dA: "distinct (map fst ?A)" and dB: "distinct (map fst ?B)"
    using assms by (simp_all add: distinct_map_filter)
  have "distinct (map fst (sort_key (\<lambda>p. digits_value (fst p)) ?A))"
    using dA by (simp add: distinct_map)
  moreover have "fst ` set ?A \<inter> fst ` set ?B = {}" by auto
  ultimately show ?thesis using dB by (simp add: own_entries_def)
qed

lemma from_row_total:
  assumes "from_row env d r"
  shows "deduction_total d = line_total r"
proof -
  from assms obtain d' where d': "make_deduction env 0 r = Inr d'"
    and eq: "d\<lparr>deduction_id := []\<rparr> = d'\<lparr>deduction_id := []\<rparr>"
    by (auto simp: from_row_def split: sum.splits)
  have "quantity (d\<lparr>deduction_id := []\<rparr>) = quantity (d'\<lparr>deduction_id := []\<rparr>)"
    "unitPrice (d\<lparr>deduction_id := []\<rparr>) = unitPrice (d'\<lparr>deduction_id := []\<rparr>)"
    using eq by simp_all
  then have q: "quantity d = quantity d'" "unitPrice d = unitPrice d'" by simp_all
  have "quantity d' = NumF (parseFloat (cell r 9))" "unitPrice d' = NumF (parseFloat (cell r 10))"
    using d' by (auto simp: make_deduction_def Let_def split: sum.splits)
  then show ?thesis using q by (simp add: deduction_total_def line_total_def)
qed

lemma make_submission_total:
  "make_submission env k e = Inr (k', s) \<Longrightarrow> grandTotal s = grand_total (contractors s)"
  by (auto simp: make_submission_def Let_def split: sum.splits)

text \<open>
  The grand total of a reconstructed report is the sum, over the rows of the report, of
  parsed quantity times parsed unit price; a cell that does not parse makes it NaN.
\<close>

lemma grand_total_is_sum_of_line_totals:
  assumes "parseSubmissionsFromRows env rows = Inr ss" and "s \<in> set ss"
  shows "grandTotal s = js_sum (map line_total (report_rows env rows s))"
proof -
  let ?grp = "rows_with_key env (timestamp s) rows"
  from report_of_group[OF assms] obtain k k' where
    ms: "make_submission env k (timestamp s, ?grp) = Inr (k', s)" by blast
  from make_submission_contractors[OF ms] obtain cm where
    inv: "cmap_inv env cm ?grp" and cs: "contractors s = map snd (own_entries cm)" by auto
  have dist: "distinct (map fst cm)" using inv by (simp add: cmap_inv_def)
  let ?E = "own_entries cm"
  let ?bucket = "\<lambda>n. js_sum (map line_total (filter (\<lambda>r. contractor_key env r = n) ?grp))"
  have each: "contractor_total (snd p) = ?bucket (fst p)" if "p \<in> set ?E" for p
  proof -
    have "(fst p, snd p) \<in> set cm" using that by (simp add: set_own_entries)
    then have "map_of cm (fst p) = Some (snd p)" using dist by simp
    then have "list_all2 (from_row env) (deductions (snd p)) (rows_named env (fst p) ?grp)"
      using inv by (simp add: cmap_inv_def)
    then have "map deduction_total (deductions (snd p)) = map line_total (rows_named env (fst p) ?grp)"
      by (induction rule: list_all2_induct) (simp_all add: from_row_total)
    then show ?thesis by (simp add: contractor_total_sum rows_named_def)
  qed
  have "map contractor_total (contractors s) = map ?bucket (map fst ?E)"
    using each by (simp add: cs)
  then have "grandTotal s = js_sum (map ?bucket (map fst ?E))"
    using make_submission_total[OF ms] by (simp add: grand_total_sum)
  also have "\<dots> = js_sum (map line_total ?grp)"
  proof (rule js_sum_by_key)
    show "distinct (map fst ?E)" using dist by (rule distinct_own_entries)
    show "\<forall>r\<in>set ?grp. contractor_key env r \<in> set (map fst ?E)"
    proof
      fix r assume "r \<in> set ?grp"
      moreover have "\<forall>r\<in>set ?grp. map_of cm (contractor_key env r) \<noteq> None"
        using inv unfolding cmap_inv_def by blast
      ultimately have "map_of cm (contractor_key env r) \<noteq> None" by blast
      then have "contractor_key env r \<in> fst ` set cm"
        by (simp add: map_of_eq_None_iff)
      then show "contractor_key env r \<in> set (map fst ?E)" by (simp add: set_own_entries)
    qed
  qed
  finally show ?thesis by (simp add: report_rows_eq)
qed

text \<open>
  When every quantity and unit-price cell of the report parses as a number, the grand
  total is the sum that the specification describes.
\<close>

lemma grand_total_of_numeric_rows:
  assumes "parseSubmissionsFromRows env rows = Inr ss" and "s \<in> set ss"
    and "\<forall>r\<in>set (report_rows env rows s).
           parseFloat (cell r 9) \<noteq> NaN \<and> parseFloat (cell r 10) \<noteq> NaN"
  shows "grandTotal s = spec_grand_total (report_rows env rows s)"
proof -
  have m: "map spec_line_total (report_rows env rows s) = map line_total (report_rows env rows s)"
    using assms(3) by (simp add: spec_line_total_def line_total_def nan_as_zero_def)
  have "spec_grand_total (report_rows env rows s)
      = js_sum (map spec_line_total (report_rows env rows s))"
    by (simp add: spec_grand_total_def js_sum_def foldl_map)
  then have "spec_grand_total (report_rows env rows s)
      = js_sum (map line_total (report_rows env rows s))"
    by (simp only: m)
  then show ?thesis using grand_total_is_sum_of_line_totals[OF assms(1,2)] by simp
qed

end
